theory Spec2Isabelle
  imports Complex_Main
begin

section \<open>qbench: the benchmark orchestration of wip\_benchmarks.py and benchmarks.py\<close>

text \<open>
  The program times quantum circuit simulations on up to three Qiskit Aer backends.
  The simulator library, the circuit generator and the clock are outside the program;
  they are the parameters of the model (the record \<open>env\<close>). Everything the program
  does to the outside is written into an explicit state (the record \<open>world\<close>): the
  calls of \<open>simulator.run\<close>, the calls of \<open>random_circuit\<close>, the printed lines and
  the files written.
\<close>

subsection \<open>Python values\<close>

text \<open>
  What a Python call can raise. \<open>except Exception\<close> catches the instances of
  \<open>Exception\<close> only: \<open>KeyboardInterrupt\<close> and \<open>SystemExit\<close> derive from
  \<open>BaseException\<close> and pass through it.
\<close>

datatype raised = Exception string | KeyboardInterrupt | SystemExit int

fun is_Exception :: "raised \<Rightarrow> bool" where
  "is_Exception (Exception msg) = True"
| "is_Exception KeyboardInterrupt = False"
| "is_Exception (SystemExit code) = False"

text \<open>
  A float64 as the program sees it: a finite number, an infinity or NaN. Rounding and
  signed zeros are left out; a finite value is a real number.
\<close>

datatype npfloat = Fin real | PosInf | NegInf | NaN

text \<open>\<open>AerSimulator(method="statevector", device=..., precision=..., cuStateVec_enable=...)\<close>\<close>

datatype simulator = AerSimulator (device: string) (sim_precision: string) (cuStateVec_enable: bool)

text \<open>
  The circuit that \<open>random_circuit(n_qubits, depth, measure=False, seed=seed)\<close>,
  \<open>transpile\<close> and \<open>save_statevector\<close> build: the generator is seeded, so the
  circuit is a value of its three arguments.
\<close>

datatype circuit = Circuit (n_qubits: int) (circ_depth: int) (circ_seed: int)

text \<open>The lines the program prints (separator rules and blank lines are left out).\<close>

datatype line =
    Banner
  | Backend_initialized string
  | Backend_failed_warning string raised
  | No_backends_available
  | Performing_warmup
  | Warmup_complete string
  | Warmup_failed string raised
  | Starting_benchmark
  | Benchmarking int
  | Timing string npfloat "npfloat option"
  | Failed string raised
  | Saved_data string
  | Generating_plots
  | Saved_plot string
  | Benchmark_complete string
  | Interrupted_by_user
  | Error_line raised

text \<open>A field of a CSV row, and what the two export functions write.\<close>

datatype field = Str_field string | Int_field int | Float_field npfloat

record figure =
  speedup_lines :: "(string \<times> int list \<times> npfloat list) list"
  time_lines :: "(string \<times> int list \<times> npfloat list) list"

datatype content = Csv "field list list" | Plot figure

subsection \<open>The outside: collaborators and effects\<close>

text \<open>
  \<open>construct\<close>: what building a simulator raises, if anything.
  \<open>generate\<close>: what building the circuit for a size raises, if anything, given the
  sizes generated before.
  \<open>run\<close>: the outcome of \<open>simulator.run(circuit).result()\<close>, given all the runs
  made before: what it raises, or the wall-clock difference \<open>end - start\<close>.
  An interrupt by the user is a \<open>KeyboardInterrupt\<close> raised by one of these calls,
  in which the program spends its time. An interrupt that arrives while the results are
  exported is not part of the model: the export functions below raise only what their
  own computations raise. The file system is assumed not to fail.
\<close>

record env =
  construct :: "simulator \<Rightarrow> raised option"
  generate :: "int list \<Rightarrow> int \<Rightarrow> raised option"
  run :: "(simulator \<times> circuit) list \<Rightarrow> simulator \<Rightarrow> circuit \<Rightarrow> raised + real"

record world =
  executed :: "(simulator \<times> circuit) list"
  generated :: "int list"
  stdout :: "line list"
  dirs :: "string list"
  files :: "string \<Rightarrow> content option"

definition print :: "line \<Rightarrow> world \<Rightarrow> world" where
  "print l w = w\<lparr>stdout := stdout w @ [l]\<rparr>"

subsection \<open>benchmark (wip\_benchmarks.py, lines 150-160)\<close>

text \<open>\<open>np.mean\<close> and \<open>np.std\<close> of a list of finite floats; both are NaN (with a
  warning, no exception) on the empty list.\<close>

definition np_mean :: "real list \<Rightarrow> npfloat" where
  "np_mean ts = (if ts = [] then NaN else Fin (sum_list ts / real (length ts)))"

definition np_std :: "real list \<Rightarrow> npfloat" where
  "np_std ts =
     (if ts = [] then NaN
      else let m = sum_list ts / real (length ts)
           in Fin (sqrt (sum_list (map (\<lambda>t. (t - m)\<^sup>2) ts) / real (length ts))))"

text \<open>
  The loop \<open>for _ in range(repeats)\<close>: the first argument counts the iterations
  left (\<open>range(repeats)\<close> has \<open>nat repeats\<close> elements, none when
  \<open>repeats \<le> 0\<close>), \<open>tms\<close> is the list \<open>times\<close> built so far. Every call of
  \<open>simulator.run\<close> is written to \<open>executed\<close>, also one that raises. A run that
  raises ends the loop and the function; the list is a local and is lost with it.
\<close>

fun timed_runs ::
  "nat \<Rightarrow> env \<Rightarrow> simulator \<Rightarrow> circuit \<Rightarrow> real list \<Rightarrow> world \<Rightarrow> (raised + real list) \<times> world" where
  "timed_runs 0 e sim qc tms w = (Inr tms, w)"
| "timed_runs (Suc k) e sim qc tms w =
     (case run e (executed w) sim qc of
        Inl exc \<Rightarrow> (Inl exc, w\<lparr>executed := executed w @ [(sim, qc)]\<rparr>)
      | Inr d \<Rightarrow> timed_runs k e sim qc (tms @ [d]) (w\<lparr>executed := executed w @ [(sim, qc)]\<rparr>))"

definition benchmark ::
  "env \<Rightarrow> simulator \<Rightarrow> circuit \<Rightarrow> int \<Rightarrow> world \<Rightarrow> (raised + npfloat \<times> npfloat) \<times> world" where
  "benchmark e sim qc reps w =
     (case timed_runs (nat reps) e sim qc [] w of
        (Inl exc, w') \<Rightarrow> (Inl exc, w')
      | (Inr tms, w') \<Rightarrow> (Inr (np_mean tms, np_std tms), w'))"

subsection \<open>Command line arguments (parse\_arguments, lines 21-108)\<close>

text \<open>The namespace that \<open>parse_arguments\<close> returns. argparse checks the types and
  the \<open>choices\<close>; it checks no range, so every integer is a possible value.\<close>

record args =
  min_qubits :: int
  max_qubits :: int
  step :: int
  depth :: int
  seed :: int
  precision :: string
  backends :: "string list"
  output_dir :: string
  save_data :: bool
  no_plots :: bool
  warmup :: bool
  repeats :: int

subsection \<open>setup\_backends (lines 111-147)\<close>

text \<open>\<open>'all' in backend_list or name in backend_list\<close>\<close>

definition requested :: "string \<Rightarrow> string list \<Rightarrow> bool" where
  "requested name backend_list = (''all'' \<in> set backend_list \<or> name \<in> set backend_list)"

text \<open>The CPU block (lines 115-121). It has no \<open>try\<close>: what the constructor raises
  leaves \<open>setup_backends\<close>. The dictionary \<open>backends\<close> is a list of pairs in
  insertion order; the three names are different, so an assignment appends.\<close>

definition cpu_block ::
  "env \<Rightarrow> string \<Rightarrow> string list \<Rightarrow> world \<Rightarrow> (raised + (string \<times> simulator) list) \<times> world" where
  "cpu_block e prec backend_list w =
     (if requested ''cpu'' backend_list
      then (case construct e (AerSimulator ''CPU'' prec False) of
              Some exc \<Rightarrow> (Inl exc, w)
            | None \<Rightarrow> (Inr [(''cpu'', AerSimulator ''CPU'' prec False)],
                       print (Backend_initialized ''cpu'') w))
      else (Inr [], w))"

text \<open>
  The two GPU blocks (lines 123-133 and 135-145), which differ in the name and in
  \<open>cuStateVec_enable\<close>: \<open>try: backends[name] = AerSimulator(...)\<close> with a warning
  in \<open>except Exception\<close>.
\<close>

definition gpu_block ::
  "env \<Rightarrow> string \<Rightarrow> bool \<Rightarrow> string \<Rightarrow> string list \<Rightarrow> (string \<times> simulator) list \<Rightarrow> world
    \<Rightarrow> (raised + (string \<times> simulator) list) \<times> world" where
  "gpu_block e name cusv prec backend_list bs w =
     (if requested name backend_list
      then (case construct e (AerSimulator ''GPU'' prec cusv) of
              None \<Rightarrow> (Inr (bs @ [(name, AerSimulator ''GPU'' prec cusv)]),
                       print (Backend_initialized name) w)
            | Some exc \<Rightarrow>
                if is_Exception exc then (Inr bs, print (Backend_failed_warning name exc) w)
                else (Inl exc, w))
      else (Inr bs, w))"

definition setup_backends ::
  "env \<Rightarrow> string \<Rightarrow> string list \<Rightarrow> world \<Rightarrow> (raised + (string \<times> simulator) list) \<times> world" where
  "setup_backends e prec backend_list w =
     (case cpu_block e prec backend_list w of
        (Inl exc, w1) \<Rightarrow> (Inl exc, w1)
      | (Inr b1, w1) \<Rightarrow>
          (case gpu_block e ''gpu_default'' False prec backend_list b1 w1 of
             (Inl exc, w2) \<Rightarrow> (Inl exc, w2)
           | (Inr b2, w2) \<Rightarrow> gpu_block e ''gpu_custatevec'' True prec backend_list b2 w2))"

subsection \<open>run\_benchmarks (lines 163-251)\<close>

text \<open>
  \<open>results\<close> (line 193): a dictionary from the backend's name to its two lists
  \<open>'times'\<close> and \<open>'stds'\<close>, here a list of triples in insertion order. The cell of
  a backend at the i-th size is the i-th element of its two lists.
\<close>

type_synonym results = "(string \<times> npfloat list \<times> npfloat list) list"

definition init_results :: "(string \<times> simulator) list \<Rightarrow> results" where
  "init_results bs = map (\<lambda>nb. (fst nb, [], [])) bs"

text \<open>\<open>results[name]['times'].append(t); results[name]['stds'].append(s)\<close>; the
  subscript raises KeyError for a name that is no key.\<close>

definition append_cell :: "string \<Rightarrow> npfloat \<Rightarrow> npfloat \<Rightarrow> results \<Rightarrow> raised + results" where
  "append_cell name t s res =
     (if name \<in> fst ` set res
      then Inr (map (\<lambda>(k, ts, ss). if k = name then (k, ts @ [t], ss @ [s]) else (k, ts, ss)) res)
      else Inl (Exception ''KeyError''))"

text \<open>The \<open>except Exception\<close> branch of a trial (lines 233-236).\<close>

definition trial_failed ::
  "string \<Rightarrow> raised \<Rightarrow> results \<Rightarrow> world \<Rightarrow> (raised + results) \<times> world" where
  "trial_failed name exc res w =
     (if is_Exception exc
      then (case append_cell name NaN NaN res of
              Inr res' \<Rightarrow> (Inr res', print (Failed name exc) w)
            | Inl exc' \<Rightarrow> (Inl exc', print (Failed name exc) w))
      else (Inl exc, w))"

text \<open>One trial: the body of the loop over the backends (lines 224-236).\<close>

definition trial ::
  "env \<Rightarrow> int \<Rightarrow> circuit \<Rightarrow> string \<times> simulator \<Rightarrow> results \<Rightarrow> world \<Rightarrow> (raised + results) \<times> world" where
  "trial e reps qc_t nb res w =
     (case benchmark e (snd nb) qc_t reps w of
        (Inr (mean_time, std_time), w1) \<Rightarrow>
          (case append_cell (fst nb) mean_time std_time res of
             Inr res' \<Rightarrow>
               (Inr res', print (Timing (fst nb) mean_time (if reps > 1 then Some std_time else None)) w1)
           | Inl exc \<Rightarrow> trial_failed (fst nb) exc res w1)
      | (Inl exc, w1) \<Rightarrow> trial_failed (fst nb) exc res w1)"

text \<open>\<open>for name, backend in backends.items()\<close> (line 223).\<close>

fun for_backends ::
  "env \<Rightarrow> int \<Rightarrow> circuit \<Rightarrow> (string \<times> simulator) list \<Rightarrow> results \<Rightarrow> world
    \<Rightarrow> (raised + results) \<times> world" where
  "for_backends e reps qc_t [] res w = (Inr res, w)"
| "for_backends e reps qc_t (nb # rest) res w =
     (case trial e reps qc_t nb res w of
        (Inl exc, w1) \<Rightarrow> (Inl exc, w1)
      | (Inr res1, w1) \<Rightarrow> for_backends e reps qc_t rest res1 w1)"

text \<open>Lines 218-220 (and 198-200): generate, transpile, save\_statevector.\<close>

definition make_circuit :: "env \<Rightarrow> int \<Rightarrow> int \<Rightarrow> int \<Rightarrow> world \<Rightarrow> (raised + circuit) \<times> world" where
  "make_circuit e n d sd w =
     (case generate e (generated w) n of
        Some exc \<Rightarrow> (Inl exc, w\<lparr>generated := generated w @ [n]\<rparr>)
      | None \<Rightarrow> (Inr (Circuit n d sd), w\<lparr>generated := generated w @ [n]\<rparr>))"

text \<open>\<open>for n_qubits in qubit_sizes\<close> (lines 214-238).\<close>

fun sweep ::
  "env \<Rightarrow> args \<Rightarrow> (string \<times> simulator) list \<Rightarrow> int list \<Rightarrow> results \<Rightarrow> world
    \<Rightarrow> (raised + results) \<times> world" where
  "sweep e a bs [] res w = (Inr res, w)"
| "sweep e a bs (n # ns) res w =
     (case make_circuit e n (depth a) (seed a) (print (Benchmarking n) w) of
        (Inl exc, w1) \<Rightarrow> (Inl exc, w1)
      | (Inr qc_t, w1) \<Rightarrow>
          (case for_backends e (repeats a) qc_t bs res w1 of
             (Inl exc, w2) \<Rightarrow> (Inl exc, w2)
           | (Inr res2, w2) \<Rightarrow> sweep e a bs ns res2 w2))"

text \<open>The loop of the warmup block (lines 201-206); \<open>benchmark\<close> is called with its
  default \<open>repeats=1\<close> and its result is dropped.\<close>

fun warmup_backends ::
  "env \<Rightarrow> circuit \<Rightarrow> (string \<times> simulator) list \<Rightarrow> world \<Rightarrow> (raised + unit) \<times> world" where
  "warmup_backends e qc [] w = (Inr (), w)"
| "warmup_backends e qc (nb # rest) w =
     (case benchmark e (snd nb) qc 1 w of
        (Inr r, w1) \<Rightarrow> warmup_backends e qc rest (print (Warmup_complete (fst nb)) w1)
      | (Inl exc, w1) \<Rightarrow>
          if is_Exception exc
          then warmup_backends e qc rest (print (Warmup_failed (fst nb) exc) w1)
          else (Inl exc, w1))"

text \<open>The warmup block (lines 196-207), run once, before the sweep, on a circuit of
  \<open>args.min_qubits\<close> qubits.\<close>

definition warmup_block ::
  "env \<Rightarrow> args \<Rightarrow> (string \<times> simulator) list \<Rightarrow> world \<Rightarrow> (raised + unit) \<times> world" where
  "warmup_block e a bs w =
     (case make_circuit e (min_qubits a) (depth a) (seed a) (print Performing_warmup w) of
        (Inl exc, w1) \<Rightarrow> (Inl exc, w1)
      | (Inr warmup_qc, w1) \<Rightarrow> warmup_backends e warmup_qc bs w1)"

text \<open>\<open>range(start, stop, step)\<close> as the list of its elements; a step of 0 raises
  ValueError.\<close>

definition py_range :: "int \<Rightarrow> int \<Rightarrow> int \<Rightarrow> raised + int list" where
  "py_range start stop stp =
     (if stp = 0 then Inl (Exception ''ValueError: range() arg 3 must not be zero'')
      else if stp > 0
      then Inr (map (\<lambda>k. start + stp * int k) [0..<nat ((stop - start + stp - 1) div stp)])
      else Inr (map (\<lambda>k. start + stp * int k) [0..<nat ((start - stop - stp - 1) div (- stp))]))"

text \<open>
  Lines 183-238 of \<open>run_benchmarks\<close>: the backends, the sizes, the empty table, the
  warmup and the sweep. It returns what the export calls of lines 240-246 are given:
  \<open>qubit_sizes\<close> and \<open>results\<close>.
\<close>

definition collect_results :: "env \<Rightarrow> args \<Rightarrow> world \<Rightarrow> (raised + int list \<times> results) \<times> world" where
  "collect_results e a w =
     (case setup_backends e (precision a) (backends a) w of
        (Inl exc, w1) \<Rightarrow> (Inl exc, w1)
      | (Inr bs, w1) \<Rightarrow>
          if bs = [] then (Inl (SystemExit 1), print No_backends_available w1)
          else
            (case py_range (min_qubits a) (max_qubits a + 1) (step a) of
               Inl exc \<Rightarrow> (Inl exc, w1)
             | Inr qubit_sizes \<Rightarrow>
                 (case (if warmup a then warmup_block e a bs w1 else (Inr (), w1)) of
                    (Inl exc, w2) \<Rightarrow> (Inl exc, w2)
                  | (Inr u, w2) \<Rightarrow>
                      (case sweep e a bs qubit_sizes (init_results bs) (print Starting_benchmark w2) of
                         (Inl exc, w3) \<Rightarrow> (Inl exc, w3)
                       | (Inr res, w3) \<Rightarrow> (Inr (qubit_sizes, res), w3)))))"

subsection \<open>save\_benchmark\_data (lines 254-277)\<close>

text \<open>\<open>output_path / name\<close>\<close>

definition path_join :: "string \<Rightarrow> string \<Rightarrow> string" where
  "path_join d f = d @ ''/'' @ f"

text \<open>The header (lines 264-266).\<close>

definition csv_headers :: "results \<Rightarrow> field list" where
  "csv_headers res =
     Str_field ''qubits'' # concat (map (\<lambda>(name, ts, ss). [Str_field (name @ ''_time''), Str_field (name @ ''_std'')]) res)"

text \<open>The inner loop (lines 272-274) at row \<open>i\<close>: \<open>results[name]['times'][i]\<close> raises
  IndexError when the list has no i-th element.\<close>

fun csv_cells :: "results \<Rightarrow> nat \<Rightarrow> raised + field list" where
  "csv_cells [] i = Inr []"
| "csv_cells ((name, ts, ss) # rest) i =
     (if i < length ts \<and> i < length ss
      then (case csv_cells rest i of
              Inl exc \<Rightarrow> Inl exc
            | Inr cells \<Rightarrow> Inr (Float_field (ts ! i) # Float_field (ss ! i) # cells))
      else Inl (Exception ''IndexError''))"

text \<open>The loop over \<open>enumerate(qubit_sizes)\<close> (lines 270-275); \<open>written\<close> is what the
  writer has written so far. A row that raises is not written, the rows before it are.\<close>

fun csv_rows :: "results \<Rightarrow> nat \<Rightarrow> int list \<Rightarrow> field list list \<Rightarrow> raised option \<times> field list list" where
  "csv_rows res i [] written = (None, written)"
| "csv_rows res i (n # ns) written =
     (case csv_cells res i of
        Inl exc \<Rightarrow> (Some exc, written)
      | Inr cells \<Rightarrow> csv_rows res (Suc i) ns (written @ [Int_field n # cells]))"

text \<open>
  \<open>open(csv_file, 'w')\<close> replaces the file; the \<open>with\<close> block closes it also when a
  row raises. The content is the list of the rows given to \<open>writer.writerow\<close>, which
  renders every field with \<open>str\<close>. The parameter \<open>args\<close> is not used by the source
  and is left out. The operating system is assumed not to fail.
\<close>

definition save_benchmark_data ::
  "results \<Rightarrow> int list \<Rightarrow> string \<Rightarrow> world \<Rightarrow> (raised + unit) \<times> world" where
  "save_benchmark_data res qubit_sizes output_path w =
     (let csv_file = path_join output_path ''benchmark_results.csv'' in
      case csv_rows res 0 qubit_sizes [csv_headers res] of
        (Some exc, rows) \<Rightarrow> (Inl exc, w\<lparr>files := (files w)(csv_file \<mapsto> Csv rows)\<rparr>)
      | (None, rows) \<Rightarrow>
          (Inr (), print (Saved_data csv_file) (w\<lparr>files := (files w)(csv_file \<mapsto> Csv rows)\<rparr>)))"

subsection \<open>generate\_plots (lines 280-330)\<close>

text \<open>Division of two float64 values in numpy: it never raises; a division by zero
  gives an infinity or NaN (and a warning), and NaN on either side gives NaN.\<close>

fun fdiv :: "npfloat \<Rightarrow> npfloat \<Rightarrow> npfloat" where
  "fdiv NaN y = NaN"
| "fdiv x NaN = NaN"
| "fdiv (Fin a) (Fin b) =
     (if b = 0 then (if a = 0 then NaN else if a > 0 then PosInf else NegInf) else Fin (a / b))"
| "fdiv (Fin a) y = Fin 0"
| "fdiv PosInf (Fin b) = (if b \<ge> 0 then PosInf else NegInf)"
| "fdiv NegInf (Fin b) = (if b \<ge> 0 then NegInf else PosInf)"
| "fdiv x y = NaN"

text \<open>\<open>a / b\<close> on two one-dimensional arrays: elementwise, an array of one element is
  broadcast, any other pair of different lengths raises ValueError.\<close>

definition np_divide :: "npfloat list \<Rightarrow> npfloat list \<Rightarrow> raised + npfloat list" where
  "np_divide xs ys =
     (if length xs = length ys then Inr (map2 fdiv xs ys)
      else if length xs = 1 then Inr (map (fdiv (hd xs)) ys)
      else if length ys = 1 then Inr (map (\<lambda>x. fdiv x (hd ys)) xs)
      else Inl (Exception ''ValueError: operands could not be broadcast together''))"

text \<open>\<open>ax.plot(x, y, label=...)\<close>: the line is added to the axes; arrays of
  different lengths raise ValueError.\<close>

definition plot ::
  "string \<Rightarrow> int list \<Rightarrow> npfloat list \<Rightarrow> (string \<times> int list \<times> npfloat list) list
    \<Rightarrow> raised + (string \<times> int list \<times> npfloat list) list" where
  "plot label xs ys ax =
     (if length xs = length ys then Inr (ax @ [(label, xs, ys)])
      else Inl (Exception ''ValueError: x and y must have same first dimension''))"

text \<open>The loop of the left panel (lines 294-299).\<close>

fun plot_speedups ::
  "npfloat list \<Rightarrow> int list \<Rightarrow> results \<Rightarrow> (string \<times> int list \<times> npfloat list) list
    \<Rightarrow> raised + (string \<times> int list \<times> npfloat list) list" where
  "plot_speedups cpu_times qubit_array [] ax1 = Inr ax1"
| "plot_speedups cpu_times qubit_array ((name, ts, ss) # rest) ax1 =
     (if name \<noteq> ''cpu''
      then (case np_divide cpu_times ts of
              Inl exc \<Rightarrow> Inl exc
            | Inr speedup \<Rightarrow>
                (case plot (name @ '' vs CPU'') qubit_array speedup ax1 of
                   Inl exc \<Rightarrow> Inl exc
                 | Inr ax1' \<Rightarrow> plot_speedups cpu_times qubit_array rest ax1'))
      else plot_speedups cpu_times qubit_array rest ax1)"

text \<open>The loop of the right panel (lines 311-313).\<close>

fun plot_times ::
  "int list \<Rightarrow> results \<Rightarrow> (string \<times> int list \<times> npfloat list) list
    \<Rightarrow> raised + (string \<times> int list \<times> npfloat list) list" where
  "plot_times qubit_array [] ax2 = Inr ax2"
| "plot_times qubit_array ((name, ts, ss) # rest) ax2 =
     (case plot name qubit_array ts ax2 of
        Inl exc \<Rightarrow> Inl exc
      | Inr ax2' \<Rightarrow> plot_times qubit_array rest ax2')"

text \<open>The figure that lines 288-321 build: the speedup lines only \<open>if 'cpu' in results\<close>.\<close>

definition build_figure :: "results \<Rightarrow> int list \<Rightarrow> raised + figure" where
  "build_figure res qubit_sizes =
     (case (case map_of res ''cpu'' of
              Some cpu \<Rightarrow> plot_speedups (fst cpu) qubit_sizes res []
            | None \<Rightarrow> Inr []) of
        Inl exc \<Rightarrow> Inl exc
      | Inr ax1 \<Rightarrow>
          (case plot_times qubit_sizes res [] of
             Inl exc \<Rightarrow> Inl exc
           | Inr ax2 \<Rightarrow> Inr \<lparr>speedup_lines = ax1, time_lines = ax2\<rparr>))"

definition generate_plots ::
  "results \<Rightarrow> int list \<Rightarrow> string \<Rightarrow> world \<Rightarrow> (raised + unit) \<times> world" where
  "generate_plots res qubit_sizes output_path w =
     (case build_figure res qubit_sizes of
        Inl exc \<Rightarrow> (Inl exc, print Generating_plots w)
      | Inr fig \<Rightarrow>
          (let plot_file = path_join output_path ''benchmark_comparison.png'';
               pdf_file = path_join output_path ''benchmark_comparison.pdf'';
               w1 = print Generating_plots w
           in (Inr (),
               print (Saved_plot plot_file)
                 (w1\<lparr>files := (files w1)(plot_file \<mapsto> Plot fig, pdf_file \<mapsto> Plot fig)\<rparr>))))"

subsection \<open>run\_benchmarks and main (lines 163-251 and 333-346)\<close>

text \<open>Lines 240-246: the two export calls, behind their flags.\<close>

definition export_results ::
  "args \<Rightarrow> int list \<Rightarrow> results \<Rightarrow> world \<Rightarrow> (raised + unit) \<times> world" where
  "export_results a qubit_sizes res w =
     (case (if save_data a then save_benchmark_data res qubit_sizes (output_dir a) w
            else (Inr (), w)) of
        (Inl exc, w1) \<Rightarrow> (Inl exc, w1)
      | (Inr u, w1) \<Rightarrow>
          (if \<not> no_plots a then generate_plots res qubit_sizes (output_dir a) w1
           else (Inr (), w1)))"

text \<open>\<open>run_benchmarks\<close>: the configuration is printed and the output directory is
  made (lines 166-180), then the results are collected and exported.\<close>

definition run_benchmarks :: "env \<Rightarrow> args \<Rightarrow> world \<Rightarrow> (raised + unit) \<times> world" where
  "run_benchmarks e a w =
     (let w0 = (print Banner w)\<lparr>dirs := dirs w @ [output_dir a]\<rparr> in
      case collect_results e a w0 of
        (Inl exc, w1) \<Rightarrow> (Inl exc, w1)
      | (Inr (qubit_sizes, res), w1) \<Rightarrow>
          (case export_results a qubit_sizes res w1 of
             (Inl exc, w2) \<Rightarrow> (Inl exc, w2)
           | (Inr u, w2) \<Rightarrow> (Inr (), print (Benchmark_complete (output_dir a)) w2)))"

text \<open>\<open>main\<close> after \<open>parse_arguments\<close>: the exit status of the process and the
  final state. \<open>sys.exit(1)\<close> inside \<open>run_benchmarks\<close> is a \<open>SystemExit\<close>, which
  neither handler catches.\<close>

definition main :: "env \<Rightarrow> args \<Rightarrow> world \<Rightarrow> int \<times> world" where
  "main e a w =
     (case run_benchmarks e a w of
        (Inr u, w1) \<Rightarrow> (0, w1)
      | (Inl KeyboardInterrupt, w1) \<Rightarrow> (1, print Interrupted_by_user w1)
      | (Inl (Exception msg), w1) \<Rightarrow> (1, print (Error_line (Exception msg)) w1)
      | (Inl (SystemExit code), w1) \<Rightarrow> (code, w1))"

section \<open>The earlier script benchmarks.py\<close>

text \<open>\<open>benchmark\<close> of benchmarks.py (lines 20-25): one timed run.\<close>

definition script_benchmark :: "env \<Rightarrow> simulator \<Rightarrow> circuit \<Rightarrow> world \<Rightarrow> (raised + real) \<times> world" where
  "script_benchmark e sim qc w =
     (case run e (executed w) sim qc of
        Inl exc \<Rightarrow> (Inl exc, w\<lparr>executed := executed w @ [(sim, qc)]\<rparr>)
      | Inr d \<Rightarrow> (Inr d, w\<lparr>executed := executed w @ [(sim, qc)]\<rparr>))"

text \<open>A guarded GPU benchmark (lines 41-47 and 50-56): the time, or NaN.\<close>

definition script_try_gpu :: "env \<Rightarrow> simulator \<Rightarrow> circuit \<Rightarrow> world \<Rightarrow> (raised + npfloat) \<times> world" where
  "script_try_gpu e sim qc w =
     (case script_benchmark e sim qc w of
        (Inr d, w1) \<Rightarrow> (Inr (Fin d), w1)
      | (Inl exc, w1) \<Rightarrow> if is_Exception exc then (Inr NaN, w1) else (Inl exc, w1))"

text \<open>
  The loop of lines 29-56 over \<open>qubit_sizes\<close>, with depth 10 and seed 42. The state is
  the three lists \<open>cpu_times\<close>, \<open>gpu_default_times\<close> and \<open>gpu_custatevec_times\<close>.
  The CPU benchmark (lines 36-37) stands outside any \<open>try\<close>. The printed lines
  are left out.
\<close>

fun script_loop ::
  "env \<Rightarrow> int list \<Rightarrow> npfloat list \<Rightarrow> npfloat list \<Rightarrow> npfloat list \<Rightarrow> world
    \<Rightarrow> (raised + npfloat list \<times> npfloat list \<times> npfloat list) \<times> world" where
  "script_loop e [] cpu_times gpu_default_times gpu_custatevec_times w =
     (Inr (cpu_times, gpu_default_times, gpu_custatevec_times), w)"
| "script_loop e (n # ns) cpu_times gpu_default_times gpu_custatevec_times w =
     (case make_circuit e n 10 42 w of
        (Inl exc, w1) \<Rightarrow> (Inl exc, w1)
      | (Inr qc_t, w1) \<Rightarrow>
          (case script_benchmark e (AerSimulator ''CPU'' ''double'' False) qc_t w1 of
             (Inl exc, w2) \<Rightarrow> (Inl exc, w2)
           | (Inr t_cpu, w2) \<Rightarrow>
               (case script_try_gpu e (AerSimulator ''GPU'' ''double'' False) qc_t w2 of
                  (Inl exc, w3) \<Rightarrow> (Inl exc, w3)
                | (Inr t_gpu_default, w3) \<Rightarrow>
                    (case script_try_gpu e (AerSimulator ''GPU'' ''double'' True) qc_t w3 of
                       (Inl exc, w4) \<Rightarrow> (Inl exc, w4)
                     | (Inr t_gpu_custatevec, w4) \<Rightarrow>
                         script_loop e ns
                           (cpu_times @ [Fin t_cpu])
                           (gpu_default_times @ [t_gpu_default])
                           (gpu_custatevec_times @ [t_gpu_custatevec]) w4))))"

section \<open>Example inputs\<close>

text \<open>The state before the program starts, and some behaviours of the outside on which
  the theorems below are run.\<close>

definition initial_world :: world where
  "initial_world = \<lparr>executed = [], generated = [], stdout = [], dirs = [], files = (\<lambda>p. None)\<rparr>"

definition env_second_run_raises :: env where
  "env_second_run_raises =
     \<lparr>construct = (\<lambda>sim. None), generate = (\<lambda>h n. None),
      run = (\<lambda>h sim qc. if length h = 1 then Inl (Exception ''boom'') else Inr 1)\<rparr>"


definition args_example :: args where
  "args_example =
     \<lparr>min_qubits = 2, max_qubits = 4, step = 2, depth = 10, seed = 42, precision = ''double'',
      backends = [''cpu''], output_dir = ''./results'', save_data = True, no_plots = False,
      warmup = False, repeats = 1\<rparr>"

definition env_cpu_unavailable :: env where
  "env_cpu_unavailable =
     \<lparr>construct = (\<lambda>sim. if device sim = ''CPU'' then Some (Exception ''AerError'') else None),
      generate = (\<lambda>h n. None), run = (\<lambda>h sim qc. Inr 1)\<rparr>"

definition env_no_backend :: env where
  "env_no_backend =
     \<lparr>construct = (\<lambda>sim. Some (Exception ''AerError'')),
      generate = (\<lambda>h n. None), run = (\<lambda>h sim qc. Inr 1)\<rparr>"

definition env_cpu_oom :: env where
  "env_cpu_oom =
     \<lparr>construct = (\<lambda>sim. None), generate = (\<lambda>h n. None),
      run = (\<lambda>h sim qc. if device sim = ''CPU'' \<and> n_qubits qc = 4
                         then Inl (Exception ''out of memory'') else Inr 1)\<rparr>"



definition env_gpu_fails_at_4 :: env where
  "env_gpu_fails_at_4 =
     \<lparr>construct = (\<lambda>sim. if cuStateVec_enable sim then Some (Exception ''cuStateVec not found'') else None),
      generate = (\<lambda>h n. None),
      run = (\<lambda>h sim qc. if device sim = ''GPU'' \<and> n_qubits qc = 4
                         then Inl (Exception ''out of memory'')
                         else Inr (of_int (n_qubits qc)))\<rparr>"

section \<open>Auxiliary notions\<close>

text \<open>The shape of a table: per backend, the lengths of its two lists. \<open>grow c\<close>
  lengthens the lists of backend \<open>k\<close> by \<open>c k\<close>.\<close>

definition shape :: "results \<Rightarrow> (string \<times> nat \<times> nat) list" where
  "shape res = map (\<lambda>(k, ts, ss). (k, length ts, length ss)) res"

definition grow :: "(string \<Rightarrow> nat) \<Rightarrow> (string \<times> nat \<times> nat) list \<Rightarrow> (string \<times> nat \<times> nat) list" where
  "grow c sh = map (\<lambda>(k, m, n). (k, m + c k, n + c k)) sh"

text \<open>
  \<open>recorded e reps w' sim qc c\<close>: the cell \<open>c\<close> is what a trial of the simulator
  \<open>sim\<close> on the circuit \<open>qc\<close> records, for a call of \<open>benchmark\<close> that was made in
  the run that ended in the state \<open>w'\<close> (the runs made up to the end of that call are
  the beginning of the runs of \<open>w'\<close>): the mean and the standard deviation that the
  call returned, or NaN and NaN when it raised an Exception.
\<close>

definition recorded :: "env \<Rightarrow> int \<Rightarrow> world \<Rightarrow> simulator \<Rightarrow> circuit \<Rightarrow> npfloat \<times> npfloat \<Rightarrow> bool" where
  "recorded e reps w' sim qc c =
     (\<exists>wj t. executed w' = executed (snd (benchmark e sim qc reps wj)) @ t \<and>
        (case fst (benchmark e sim qc reps wj) of
           Inr ms \<Rightarrow> c = ms
         | Inl exc \<Rightarrow> is_Exception exc \<and> c = (NaN, NaN)))"

section \<open>Properties\<close>

subsection \<open>The timed repeats\<close>

lemma timed_runs_Inr:
  "timed_runs k e sim qc tms w = (Inr tms', w') \<Longrightarrow>
     (\<exists>new. tms' = tms @ new \<and> length new = k) \<and>
     w' = w\<lparr>executed := executed w @ replicate k (sim, qc)\<rparr>"
proof (induction k arbitrary: tms w)
  case 0
  then show ?case by simp
next
  case (Suc k)
  from Suc.prems obtain d where d: "run e (executed w) sim qc = Inr d"
    and rest: "timed_runs k e sim qc (tms @ [d]) (w\<lparr>executed := executed w @ [(sim, qc)]\<rparr>) = (Inr tms', w')"
    by (auto split: sum.splits)
  from Suc.IH [OF rest] obtain new where "tms' = (tms @ [d]) @ new" "length new = k"
    and w': "w' = w\<lparr>executed := executed w @ [(sim, qc)] @ replicate k (sim, qc)\<rparr>"
    by auto
  then have "tms' = tms @ (d # new)" "length (d # new) = Suc k" by simp_all
  then have "\<exists>new. tms' = tms @ new \<and> length new = Suc k" by blast
  with w' show ?case by simp
qed

lemma timed_runs_fails_at:
  "j < n \<Longrightarrow>
   (\<forall>i<j. \<exists>d. run e (executed w @ replicate i (sim, qc)) sim qc = Inr d) \<Longrightarrow>
   run e (executed w @ replicate j (sim, qc)) sim qc = Inl exc \<Longrightarrow>
   timed_runs n e sim qc tms w = (Inl exc, w\<lparr>executed := executed w @ replicate (Suc j) (sim, qc)\<rparr>)"
proof (induction n arbitrary: j tms w)
  case 0
  then show ?case by simp
next
  case (Suc n)
  show ?case
  proof (cases j)
    case 0
    with Suc.prems show ?thesis by simp
  next
    case j: (Suc j')
    from Suc.prems(2) j have "\<exists>d. run e (executed w @ replicate 0 (sim, qc)) sim qc = Inr d"
      by blast
    then obtain d where d: "run e (executed w) sim qc = Inr d" by auto
    let ?w1 = "w\<lparr>executed := executed w @ [(sim, qc)]\<rparr>"
    have a: "\<forall>i<j'. \<exists>d. run e (executed ?w1 @ replicate i (sim, qc)) sim qc = Inr d"
    proof (intro allI impI)
      fix i assume "i < j'"
      then have "Suc i < j" using j by simp
      with Suc.prems(2) have "\<exists>d. run e (executed w @ replicate (Suc i) (sim, qc)) sim qc = Inr d"
        by blast
      then show "\<exists>d. run e (executed ?w1 @ replicate i (sim, qc)) sim qc = Inr d"
        by simp
    qed
    have b: "run e (executed ?w1 @ replicate j' (sim, qc)) sim qc = Inl exc"
      using Suc.prems(3) j by simp
    have "j' < n" using Suc.prems(1) j by simp
    from Suc.IH [OF this a b, of "tms @ [d]"] d j show ?thesis
      by simp
  qed
qed

lemma trial_failed_Exception:
  "is_Exception exc \<Longrightarrow>
   trial_failed name exc res w = (append_cell name NaN NaN res, print (Failed name exc) w)"
  by (simp add: trial_failed_def split: sum.splits)

lemma benchmark_Inr:
  "benchmark e sim qc reps w = (Inr (m, s), w') \<Longrightarrow>
   \<exists>tms. length tms = nat reps \<and> m = np_mean tms \<and> s = np_std tms \<and>
     w' = w\<lparr>executed := executed w @ replicate (nat reps) (sim, qc)\<rparr>"
  unfolding benchmark_def
  by (auto split: prod.splits sum.splits dest!: timed_runs_Inr)

lemma np_mean_finite: "tms \<noteq> [] \<Longrightarrow> np_mean tms \<noteq> NaN"
  by (simp add: np_mean_def)

text \<open>
  Claim C2. Let repeat \<open>k\<close> (\<open>1 \<le> k \<le> repeats\<close>) be the first timed repeat that
  raises, and let it raise an \<open>Exception\<close>. Then \<open>benchmark\<close> makes exactly \<open>k\<close>
  runs (the remaining repeats are not attempted) and returns no statistic (the
  durations of the repeats before \<open>k\<close> are lost with the local list), and the trial
  appends NaN to the two lists of that backend, leaves the other backends' lists as
  they are and prints the FAILED line. Whenever \<open>benchmark\<close> returns a mean and a
  standard deviation, they are those of a sample of exactly \<open>repeats\<close> durations,
  taken in exactly \<open>repeats\<close> runs. And a trial that ends normally has appended
  either the statistic of such a full sample, which for \<open>repeats \<ge> 1\<close> is not NaN,
  or the NaN of a failure.
\<close>

theorem failed_repeat_gives_failure_cell:
  "(1 \<le> k \<and> k \<le> nat reps \<and>
    (\<forall>i<k - 1. \<exists>d. run e (executed w @ replicate i (sim, qc)) sim qc = Inr d) \<and>
    run e (executed w @ replicate (k - 1) (sim, qc)) sim qc = Inl exc \<and> is_Exception exc \<and>
    name \<in> fst ` set res
    \<longrightarrow> benchmark e sim qc reps w = (Inl exc, w\<lparr>executed := executed w @ replicate k (sim, qc)\<rparr>) \<and>
        trial e reps qc (name, sim) res w =
          (Inr (map (\<lambda>(b, ts, ss). if b = name then (b, ts @ [NaN], ss @ [NaN]) else (b, ts, ss)) res),
           print (Failed name exc) (w\<lparr>executed := executed w @ replicate k (sim, qc)\<rparr>))) \<and>
   (benchmark e sim qc reps w = (Inr (m, s), w')
    \<longrightarrow> (\<exists>tms. length tms = nat reps \<and> m = np_mean tms \<and> s = np_std tms \<and>
          executed w' = executed w @ replicate (nat reps) (sim, qc))) \<and>
   (trial e reps qc (name, sim) res w = (Inr res', w')
    \<longrightarrow> (\<exists>tms. length tms = nat reps \<and> (1 \<le> reps \<longrightarrow> np_mean tms \<noteq> NaN) \<and>
          res' = map (\<lambda>(b, ts, ss). if b = name then (b, ts @ [np_mean tms], ss @ [np_std tms])
                                    else (b, ts, ss)) res \<and>
          executed w' = executed w @ replicate (nat reps) (sim, qc)) \<or>
        (\<exists>x. Failed name x \<in> set (stdout w') \<and>
          res' = map (\<lambda>(b, ts, ss). if b = name then (b, ts @ [NaN], ss @ [NaN]) else (b, ts, ss)) res))"
proof (intro conjI impI)
  assume h: "1 \<le> k \<and> k \<le> nat reps \<and>
    (\<forall>i<k - 1. \<exists>d. run e (executed w @ replicate i (sim, qc)) sim qc = Inr d) \<and>
    run e (executed w @ replicate (k - 1) (sim, qc)) sim qc = Inl exc \<and> is_Exception exc \<and>
    name \<in> fst ` set res"
  then have "k - 1 < nat reps" and k: "Suc (k - 1) = k" by auto
  from h have p2: "\<forall>i<k - 1. \<exists>d. run e (executed w @ replicate i (sim, qc)) sim qc = Inr d"
    and p3: "run e (executed w @ replicate (k - 1) (sim, qc)) sim qc = Inl exc" by simp_all
  from timed_runs_fails_at [OF \<open>k - 1 < nat reps\<close> p2 p3, of "[]"]
  have t: "timed_runs (nat reps) e sim qc [] w =
      (Inl exc, w\<lparr>executed := executed w @ replicate k (sim, qc)\<rparr>)"
    by (simp only: k)
  then show b: "benchmark e sim qc reps w = (Inl exc, w\<lparr>executed := executed w @ replicate k (sim, qc)\<rparr>)"
    by (simp add: benchmark_def)
  from h have "is_Exception exc" and "name \<in> fst ` set res" by simp_all
  then show "trial e reps qc (name, sim) res w =
          (Inr (map (\<lambda>(b, ts, ss). if b = name then (b, ts @ [NaN], ss @ [NaN]) else (b, ts, ss)) res),
           print (Failed name exc) (w\<lparr>executed := executed w @ replicate k (sim, qc)\<rparr>))"
    by (simp add: trial_def b trial_failed_Exception append_cell_def)
next
  assume "benchmark e sim qc reps w = (Inr (m, s), w')"
  from benchmark_Inr [OF this]
  show "\<exists>tms. length tms = nat reps \<and> m = np_mean tms \<and> s = np_std tms \<and>
          executed w' = executed w @ replicate (nat reps) (sim, qc)"
    by auto
next
  assume tr: "trial e reps qc (name, sim) res w = (Inr res', w')"
  let ?ok = "\<exists>tms. length tms = nat reps \<and> (1 \<le> reps \<longrightarrow> np_mean tms \<noteq> NaN) \<and>
          res' = map (\<lambda>(b, ts, ss). if b = name then (b, ts @ [np_mean tms], ss @ [np_std tms])
                                    else (b, ts, ss)) res \<and>
          executed w' = executed w @ replicate (nat reps) (sim, qc)"
  let ?ko = "\<exists>x. Failed name x \<in> set (stdout w') \<and>
          res' = map (\<lambda>(b, ts, ss). if b = name then (b, ts @ [NaN], ss @ [NaN]) else (b, ts, ss)) res"
  obtain r w1 where b: "benchmark e sim qc reps w = (r, w1)" by (cases "benchmark e sim qc reps w")
  have tf: "\<And>x. trial_failed name x res w1 = (Inr res', w') \<Longrightarrow> ?ko"
  proof -
    fix x assume f: "trial_failed name x res w1 = (Inr res', w')"
    then have "res' = map (\<lambda>(b, ts, ss). if b = name then (b, ts @ [NaN], ss @ [NaN]) else (b, ts, ss)) res"
      and "w' = print (Failed name x) w1"
      by (auto simp: trial_failed_def append_cell_def split: if_splits)
    then have "Failed name x \<in> set (stdout w') \<and>
        res' = map (\<lambda>(b, ts, ss). if b = name then (b, ts @ [NaN], ss @ [NaN]) else (b, ts, ss)) res"
      by (simp add: print_def)
    then show ?ko by blast
  qed
  show "?ok \<or> ?ko"
  proof (cases r)
    case (Inl x)
    with tr b have "trial_failed name x res w1 = (Inr res', w')" by (simp add: trial_def)
    from tf [OF this] show ?thesis ..
  next
    case (Inr ms)
    obtain m s where ms: "ms = (m, s)" by (cases ms)
    from benchmark_Inr [of e sim qc reps w m s w1] b Inr ms obtain tms where
      l: "length tms = nat reps" and m: "m = np_mean tms" and s: "s = np_std tms" and
      w1: "w1 = w\<lparr>executed := executed w @ replicate (nat reps) (sim, qc)\<rparr>"
      by auto
    show ?thesis
    proof (cases "append_cell name m s res")
      case (Inl x)
      with tr b Inr ms have "trial_failed name x res w1 = (Inr res', w')" by (simp add: trial_def)
      from tf [OF this] show ?thesis ..
    next
      case a: (Inr res1)
      with tr b Inr ms have "res' = res1" and
        w': "w' = print (Timing name m (if 1 < reps then Some s else None)) w1"
        by (simp_all add: trial_def)
      with a m s have "res' = map (\<lambda>(b, ts, ss). if b = name then (b, ts @ [np_mean tms], ss @ [np_std tms])
                                    else (b, ts, ss)) res"
        by (auto simp: append_cell_def split: if_splits)
      moreover from w' w1 have "executed w' = executed w @ replicate (nat reps) (sim, qc)"
        by (simp add: print_def)
      moreover from l have "1 \<le> reps \<longrightarrow> np_mean tms \<noteq> NaN"
        by (auto intro!: np_mean_finite)
      ultimately have ?ok using l by blast
      then show ?thesis ..
    qed
  qed
qed

theorem failed_repeat_gives_failure_cell_witness:
  "trial env_second_run_raises 3 (Circuit 2 10 42) (''x'', AerSimulator ''CPU'' ''double'' False)
      [(''x'', [], []), (''y'', [Fin 5], [Fin 0])] initial_world =
     (Inr [(''x'', [NaN], [NaN]), (''y'', [Fin 5], [Fin 0])],
      initial_world\<lparr>executed := replicate 2 (AerSimulator ''CPU'' ''double'' False, Circuit 2 10 42),
                     stdout := [Failed ''x'' (Exception ''boom'')]\<rparr>)
   \<and> benchmark env_second_run_raises (AerSimulator ''CPU'' ''double'' False) (Circuit 2 10 42) 1 initial_world
      = (Inr (Fin 1, Fin 0), initial_world\<lparr>executed := [(AerSimulator ''CPU'' ''double'' False, Circuit 2 10 42)]\<rparr>)
   \<and> (\<exists>tms. length tms = nat 1 \<and> Fin 1 = np_mean tms \<and> Fin 0 = np_std tms)"
  using failed_repeat_gives_failure_cell [where k = 2 and reps = 3 and e = env_second_run_raises
      and w = initial_world and sim = "AerSimulator ''CPU'' ''double'' False" and qc = "Circuit 2 10 42"
      and exc = "Exception ''boom''" and name = "''x''"
      and res = "[(''x'', [], []), (''y'', [Fin 5], [Fin 0])]", THEN conjunct1]
    failed_repeat_gives_failure_cell [where reps = 1 and e = env_second_run_raises
      and w = initial_world and sim = "AerSimulator ''CPU'' ''double'' False" and qc = "Circuit 2 10 42"
      and m = "Fin 1" and s = "Fin 0"
      and w' = "initial_world\<lparr>executed := [(AerSimulator ''CPU'' ''double'' False, Circuit 2 10 42)]\<rparr>",
      THEN conjunct2, THEN conjunct1]
  by (simp add: env_second_run_raises_def initial_world_def print_def less_Suc_eq
        benchmark_def np_mean_def np_std_def numeral_2_eq_2)

subsection \<open>Frame\<close>

lemma timed_runs_frame:
  "\<exists>n\<le>k. snd (timed_runs k e sim qc tms w) = w\<lparr>executed := executed w @ replicate n (sim, qc)\<rparr>"
proof (induction k arbitrary: tms w)
  case 0
  then show ?case by simp
next
  case (Suc k)
  show ?case
  proof (cases "run e (executed w) sim qc")
    case (Inl exc)
    then have "snd (timed_runs (Suc k) e sim qc tms w) = w\<lparr>executed := executed w @ replicate 1 (sim, qc)\<rparr>"
      by simp
    then show ?thesis by (metis One_nat_def Suc_le_mono zero_le)
  next
    case (Inr d)
    from Suc.IH [of "tms @ [d]" "w\<lparr>executed := executed w @ [(sim, qc)]\<rparr>"]
    obtain n where "n \<le> k" and
      "snd (timed_runs k e sim qc (tms @ [d]) (w\<lparr>executed := executed w @ [(sim, qc)]\<rparr>)) =
         w\<lparr>executed := executed w @ replicate (Suc n) (sim, qc)\<rparr>"
      by auto
    with Inr have "Suc n \<le> Suc k \<and> snd (timed_runs (Suc k) e sim qc tms w) =
         w\<lparr>executed := executed w @ replicate (Suc n) (sim, qc)\<rparr>"
      by simp
    then show ?thesis by blast
  qed
qed

lemma benchmark_frame:
  "\<exists>n\<le>nat reps. snd (benchmark e sim qc reps w) = w\<lparr>executed := executed w @ replicate n (sim, qc)\<rparr>"
proof -
  from timed_runs_frame [of "nat reps" e sim qc "[]" w] obtain n where
    "n \<le> nat reps" "snd (timed_runs (nat reps) e sim qc [] w) = w\<lparr>executed := executed w @ replicate n (sim, qc)\<rparr>"
    by blast
  then have "n \<le> nat reps \<and> snd (benchmark e sim qc reps w) = w\<lparr>executed := executed w @ replicate n (sim, qc)\<rparr>"
    by (auto simp: benchmark_def split: prod.splits sum.splits)
  then show ?thesis by blast
qed

lemma trial_failed_frame:
  "files (snd (trial_failed name exc res w)) = files w \<and>
   generated (snd (trial_failed name exc res w)) = generated w \<and>
   dirs (snd (trial_failed name exc res w)) = dirs w \<and>
   executed (snd (trial_failed name exc res w)) = executed w"
  by (simp add: trial_failed_def print_def split: sum.splits)

lemma trial_frame:
  "files (snd (trial e reps qc nb res w)) = files w \<and>
   generated (snd (trial e reps qc nb res w)) = generated w \<and>
   dirs (snd (trial e reps qc nb res w)) = dirs w"
proof -
  from benchmark_frame [of reps e "snd nb" qc w] obtain n where
    b: "snd (benchmark e (snd nb) qc reps w) = w\<lparr>executed := executed w @ replicate n (snd nb, qc)\<rparr>"
    by blast
  obtain r w1 where rw: "benchmark e (snd nb) qc reps w = (r, w1)" by (cases "benchmark e (snd nb) qc reps w")
  with b have w1: "w1 = w\<lparr>executed := executed w @ replicate n (snd nb, qc)\<rparr>" by simp
  show ?thesis
    by (simp add: trial_def rw w1 trial_failed_frame print_def split: sum.splits prod.splits)
qed

lemma for_backends_frame:
  "files (snd (for_backends e reps qc bs res w)) = files w \<and>
   generated (snd (for_backends e reps qc bs res w)) = generated w \<and>
   dirs (snd (for_backends e reps qc bs res w)) = dirs w"
proof (induction bs arbitrary: res w)
  case Nil
  then show ?case by simp
next
  case (Cons nb bs)
  obtain r w1 where t: "trial e reps qc nb res w = (r, w1)" by (cases "trial e reps qc nb res w")
  with trial_frame [of e reps qc nb res w]
  have f: "files w1 = files w" "generated w1 = generated w" "dirs w1 = dirs w" by simp_all
  show ?case
  proof (cases r)
    case (Inl exc)
    with t f show ?thesis by simp
  next
    case (Inr res1)
    with t f Cons.IH [of res1 w1] show ?thesis by simp
  qed
qed

lemma make_circuit_frame:
  "files (snd (make_circuit e n d sd w)) = files w \<and>
   dirs (snd (make_circuit e n d sd w)) = dirs w \<and>
   executed (snd (make_circuit e n d sd w)) = executed w \<and>
   generated (snd (make_circuit e n d sd w)) = generated w @ [n]"
  by (simp add: make_circuit_def split: option.splits)


lemma warmup_backends_frame:
  "files (snd (warmup_backends e qc bs w)) = files w \<and> dirs (snd (warmup_backends e qc bs w)) = dirs w
   \<and> generated (snd (warmup_backends e qc bs w)) = generated w"
proof (induction bs arbitrary: w)
  case Nil
  then show ?case by simp
next
  case (Cons nb bs)
  from benchmark_frame [of 1 e "snd nb" qc w] obtain n where
    b: "snd (benchmark e (snd nb) qc 1 w) = w\<lparr>executed := executed w @ replicate n (snd nb, qc)\<rparr>"
    by blast
  obtain r w1 where rw: "benchmark e (snd nb) qc 1 w = (r, w1)" by (cases "benchmark e (snd nb) qc 1 w")
  with b have w1: "w1 = w\<lparr>executed := executed w @ replicate n (snd nb, qc)\<rparr>" by simp
  show ?case
    by (cases r) (simp_all add: rw w1 Cons.IH print_def)
qed


lemma cpu_block_frame:
  "files (snd (cpu_block e prec bl w)) = files w \<and>
   dirs (snd (cpu_block e prec bl w)) = dirs w \<and>
   executed (snd (cpu_block e prec bl w)) = executed w \<and>
   generated (snd (cpu_block e prec bl w)) = generated w"
  by (simp add: cpu_block_def print_def split: option.splits)

lemma gpu_block_frame:
  "files (snd (gpu_block e name cusv prec bl bs w)) = files w \<and>
   dirs (snd (gpu_block e name cusv prec bl bs w)) = dirs w \<and>
   executed (snd (gpu_block e name cusv prec bl bs w)) = executed w \<and>
   generated (snd (gpu_block e name cusv prec bl bs w)) = generated w"
  by (simp add: gpu_block_def print_def split: option.splits)

lemma setup_backends_frame:
  "files (snd (setup_backends e prec bl w)) = files w \<and>
   dirs (snd (setup_backends e prec bl w)) = dirs w \<and>
   executed (snd (setup_backends e prec bl w)) = executed w \<and>
   generated (snd (setup_backends e prec bl w)) = generated w"
proof -
  obtain r1 w1 where c: "cpu_block e prec bl w = (r1, w1)" by (cases "cpu_block e prec bl w")
  with cpu_block_frame [of e prec bl w]
  have f1: "files w1 = files w" "dirs w1 = dirs w" "executed w1 = executed w" "generated w1 = generated w"
    by simp_all
  show ?thesis
  proof (cases r1)
    case (Inl exc)
    with c f1 show ?thesis by (simp add: setup_backends_def)
  next
    case (Inr b1)
    obtain r2 w2 where g: "gpu_block e ''gpu_default'' False prec bl b1 w1 = (r2, w2)"
      by (cases "gpu_block e ''gpu_default'' False prec bl b1 w1")
    with gpu_block_frame [of e "''gpu_default''" False prec bl b1 w1] f1
    have f2: "files w2 = files w" "dirs w2 = dirs w" "executed w2 = executed w" "generated w2 = generated w"
      by simp_all
    show ?thesis
    proof (cases r2)
      case (Inl exc)
      with c Inr g f2 show ?thesis by (simp add: setup_backends_def)
    next
      case r2: (Inr b2)
      with c Inr g f2 gpu_block_frame [of e "''gpu_custatevec''" True prec bl b2 w2]
      show ?thesis by (simp add: setup_backends_def)
    qed
  qed
qed

subsection \<open>The active backends\<close>

lemma cpu_block_keys:
  "cpu_block e prec bl w = (Inr bs, w') \<Longrightarrow>
   bs = (if requested ''cpu'' bl then [(''cpu'', AerSimulator ''CPU'' prec False)] else []) \<and>
   (requested ''cpu'' bl \<longrightarrow> construct e (AerSimulator ''CPU'' prec False) = None)"
  by (auto simp: cpu_block_def split: if_splits option.splits)

lemma gpu_block_keys:
  "gpu_block e name cusv prec bl bs w = (Inr bs', w') \<Longrightarrow>
   bs' = bs @ (if requested name bl \<and> construct e (AerSimulator ''GPU'' prec cusv) = None
               then [(name, AerSimulator ''GPU'' prec cusv)] else [])"
  by (auto simp: gpu_block_def split: if_splits option.splits)

lemma setup_backends_keys:
  assumes "setup_backends e prec bl w = (Inr bs, w')"
  shows "bs =
     (if requested ''cpu'' bl then [(''cpu'', AerSimulator ''CPU'' prec False)] else []) @
     (if requested ''gpu_default'' bl \<and> construct e (AerSimulator ''GPU'' prec False) = None
      then [(''gpu_default'', AerSimulator ''GPU'' prec False)] else []) @
     (if requested ''gpu_custatevec'' bl \<and> construct e (AerSimulator ''GPU'' prec True) = None
      then [(''gpu_custatevec'', AerSimulator ''GPU'' prec True)] else [])"
proof -
  from assms obtain b1 w1 b2 w2 where
    c: "cpu_block e prec bl w = (Inr b1, w1)" and
    g1: "gpu_block e ''gpu_default'' False prec bl b1 w1 = (Inr b2, w2)" and
    g2: "gpu_block e ''gpu_custatevec'' True prec bl b2 w2 = (Inr bs, w')"
    by (auto simp: setup_backends_def split: prod.splits sum.splits)
  from cpu_block_keys [OF c] gpu_block_keys [OF g1] gpu_block_keys [OF g2]
  show ?thesis by simp
qed

lemma setup_backends_distinct:
  assumes "setup_backends e prec bl w = (Inr bs, w')"
  shows "distinct (map fst bs)"
proof -
  define c1 where "c1 = requested ''cpu'' bl"
  define c2 where "c2 = (requested ''gpu_default'' bl \<and> construct e (AerSimulator ''GPU'' prec False) = None)"
  define c3 where "c3 = (requested ''gpu_custatevec'' bl \<and> construct e (AerSimulator ''GPU'' prec True) = None)"
  from setup_backends_keys [OF assms]
  have "map fst bs = (if c1 then [''cpu''] else []) @ (if c2 then [''gpu_default''] else []) @
      (if c3 then [''gpu_custatevec''] else [])"
    by (simp add: c1_def c2_def c3_def)
  then show ?thesis
    by (cases c1; cases c2; cases c3; simp)
qed

subsection \<open>The shape of the table\<close>

lemma grow_grow: "grow c (grow d sh) = grow (\<lambda>k. d k + c k) sh"
  by (simp add: grow_def case_prod_unfold add.assoc)

lemma grow_0: "grow (\<lambda>k. 0) sh = sh"
  by (simp add: grow_def)

lemma append_cell_shape:
  "append_cell name t s res = Inr res' \<Longrightarrow>
   shape res' = grow (\<lambda>k. if k = name then 1 else 0) (shape res)"
  by (auto simp: append_cell_def shape_def grow_def split: if_splits)

lemma append_cell_keys:
  "append_cell name t s res = Inr res' \<Longrightarrow> map fst res' = map fst res"
  by (auto simp: append_cell_def split: if_splits)

lemma trial_appends:
  assumes "trial e reps qc nb res w = (Inr res', w')"
  shows "\<exists>t s. append_cell (fst nb) t s res = Inr res'"
proof -
  obtain r w1 where b: "benchmark e (snd nb) qc reps w = (r, w1)"
    by (cases "benchmark e (snd nb) qc reps w")
  have tf: "\<And>exc. trial_failed (fst nb) exc res w1 = (Inr res', w') \<Longrightarrow>
      append_cell (fst nb) NaN NaN res = Inr res'"
    by (auto simp: trial_failed_def split: if_splits sum.splits)
  show ?thesis
  proof (cases r)
    case (Inl exc)
    with assms b tf show ?thesis by (auto simp: trial_def)
  next
    case (Inr ms)
    with assms b tf show ?thesis
      by (cases "append_cell (fst nb) (fst ms) (snd ms) res")
         (auto simp: trial_def split: prod.splits)
  qed
qed

lemma for_backends_shape:
  "for_backends e reps qc bs res w = (Inr res', w') \<Longrightarrow>
   shape res' = grow (count_list (map fst bs)) (shape res) \<and> map fst res' = map fst res"
proof (induction bs arbitrary: res w)
  case Nil
  then show ?case by (simp add: grow_0)
next
  case (Cons nb bs)
  from Cons.prems obtain res1 w1 where
    t: "trial e reps qc nb res w = (Inr res1, w1)" and
    r: "for_backends e reps qc bs res1 w1 = (Inr res', w')"
    by (auto split: prod.splits sum.splits)
  from trial_appends [OF t] obtain x y where a: "append_cell (fst nb) x y res = Inr res1" by blast
  from Cons.IH [OF r] append_cell_shape [OF a] append_cell_keys [OF a]
  have "shape res' = grow (\<lambda>k. (if k = fst nb then 1 else 0) + count_list (map fst bs) k) (shape res)"
    and k: "map fst res' = map fst res"
    by (simp_all add: grow_grow)
  moreover have "(\<lambda>k. (if k = fst nb then 1 else 0) + count_list (map fst bs) k) =
      count_list (map fst (nb # bs))"
    by (rule ext) simp
  ultimately show ?case by (simp only:) 
qed

lemma sweep_shape:
  "sweep e a bs ns res w = (Inr res', w') \<Longrightarrow>
   shape res' = grow (\<lambda>k. length ns * count_list (map fst bs) k) (shape res) \<and>
   map fst res' = map fst res \<and>
   generated w' = generated w @ ns"
proof (induction ns arbitrary: res w)
  case Nil
  then show ?case by (simp add: grow_0)
next
  case (Cons n ns)
  from Cons.prems obtain qc w1 res2 w2 where
    m: "make_circuit e n (depth a) (seed a) (print (Benchmarking n) w) = (Inr qc, w1)" and
    f: "for_backends e (repeats a) qc bs res w1 = (Inr res2, w2)" and
    r: "sweep e a bs ns res2 w2 = (Inr res', w')"
    by (auto split: prod.splits sum.splits)
  from make_circuit_frame [of e n "depth a" "seed a" "print (Benchmarking n) w"] m
  have g1: "generated w1 = generated w @ [n]" by (simp add: print_def)
  from for_backends_frame [of e "repeats a" qc bs res w1] f
  have g2: "generated w2 = generated w1" by simp
  from Cons.IH [OF r] for_backends_shape [OF f] g1 g2
  show ?case by (simp add: grow_grow add.commute)
qed

lemma shape_init_results: "shape (init_results bs) = map (\<lambda>nb. (fst nb, 0, 0)) bs"
  by (simp add: shape_def init_results_def)

lemma distinct_count_list_1:
  "distinct xs \<Longrightarrow> x \<in> set xs \<Longrightarrow> count_list xs x = 1"
  by (induction xs) auto

lemma shape_full:
  assumes d: "distinct (map fst bs)"
    and s: "shape res = grow (\<lambda>k. n * count_list (map fst bs) k) (shape (init_results bs))"
  shows "\<forall>(name, ts, ss) \<in> set res. length ts = n \<and> length ss = n"
proof -
  have "grow (\<lambda>k. n * count_list (map fst bs) k) (shape (init_results bs)) =
      map (\<lambda>nb. (fst nb, n, n)) bs"
    using d by (auto simp: grow_def shape_init_results distinct_count_list_1)
  with s have "shape res = map (\<lambda>nb. (fst nb, n, n)) bs" by simp
  then have "set (shape res) \<subseteq> {(k, i, j). i = n \<and> j = n}"
    by auto
  then show ?thesis
    by (fastforce simp: shape_def)
qed

lemma collect_results_Inr:
  assumes "collect_results e a w = (Inr (qubit_sizes, res), w')"
  shows "\<exists>bs w1 w2. setup_backends e (precision a) (backends a) w = (Inr bs, w1) \<and> bs \<noteq> [] \<and>
     py_range (min_qubits a) (max_qubits a + 1) (step a) = Inr qubit_sizes \<and>
     (if warmup a then warmup_block e a bs w1 else (Inr (), w1)) = (Inr (), w2) \<and>
     sweep e a bs qubit_sizes (init_results bs) (print Starting_benchmark w2) = (Inr res, w')"
  using assms unfolding collect_results_def
  by (auto split: prod.splits sum.splits if_splits)

lemma warmup_block_generated:
  "warmup_block e a bs w = (Inr u, w') \<Longrightarrow> generated w' = generated w @ [min_qubits a]"
proof -
  assume h: "warmup_block e a bs w = (Inr u, w')"
  then obtain qc w1 where
    m: "make_circuit e (min_qubits a) (depth a) (seed a) (print Performing_warmup w) = (Inr qc, w1)"
    and wb: "warmup_backends e qc bs w1 = (Inr u, w')"
    by (auto simp: warmup_block_def split: prod.splits sum.splits)
  from make_circuit_frame [of e "min_qubits a" "depth a" "seed a" "print Performing_warmup w"] m
  have "generated w1 = generated w @ [min_qubits a]" by (simp add: print_def)
  with warmup_backends_frame [of e qc bs w1] wb show ?thesis by simp
qed

lemma collect_results_shape:
  assumes "collect_results e a w = (Inr (qubit_sizes, res), w')"
  shows "py_range (min_qubits a) (max_qubits a + 1) (step a) = Inr qubit_sizes \<and>
     map fst res =
       (if requested ''cpu'' (backends a) then [''cpu''] else []) @
       (if requested ''gpu_default'' (backends a) \<and>
           construct e (AerSimulator ''GPU'' (precision a) False) = None
        then [''gpu_default''] else []) @
       (if requested ''gpu_custatevec'' (backends a) \<and>
           construct e (AerSimulator ''GPU'' (precision a) True) = None
        then [''gpu_custatevec''] else []) \<and>
     distinct (map fst res) \<and>
     (\<forall>(name, ts, ss) \<in> set res. length ts = length qubit_sizes \<and> length ss = length qubit_sizes) \<and>
     generated w' = generated w @ (if warmup a then [min_qubits a] else []) @ qubit_sizes"
proof -
  from collect_results_Inr [OF assms] obtain bs w1 w2 where
    sb: "setup_backends e (precision a) (backends a) w = (Inr bs, w1)" and
    rg: "py_range (min_qubits a) (max_qubits a + 1) (step a) = Inr qubit_sizes" and
    wu: "(if warmup a then warmup_block e a bs w1 else (Inr (), w1)) = (Inr (), w2)" and
    sw: "sweep e a bs qubit_sizes (init_results bs) (print Starting_benchmark w2) = (Inr res, w')"
    by blast
  from sweep_shape [OF sw]
  have sh: "shape res = grow (\<lambda>k. length qubit_sizes * count_list (map fst bs) k) (shape (init_results bs))"
    and ks: "map fst res = map fst bs"
    and g3: "generated w' = generated w2 @ qubit_sizes"
    by (simp_all add: init_results_def print_def comp_def)
  have d: "distinct (map fst bs)" by (rule setup_backends_distinct [OF sb])
  have keys: "map fst bs =
       (if requested ''cpu'' (backends a) then [''cpu''] else []) @
       (if requested ''gpu_default'' (backends a) \<and>
           construct e (AerSimulator ''GPU'' (precision a) False) = None
        then [''gpu_default''] else []) @
       (if requested ''gpu_custatevec'' (backends a) \<and>
           construct e (AerSimulator ''GPU'' (precision a) True) = None
        then [''gpu_custatevec''] else [])"
    by (subst setup_backends_keys [OF sb]) simp
  from setup_backends_frame [of e "precision a" "backends a" w] sb
  have g1: "generated w1 = generated w" by simp
  have g2: "generated w2 = generated w @ (if warmup a then [min_qubits a] else [])"
  proof (cases "warmup a")
    case True
    with wu warmup_block_generated [of e a bs w1 "()" w2] g1 show ?thesis by simp
  next
    case False
    with wu g1 show ?thesis by simp
  qed
  from rg ks keys d shape_full [OF d sh] g2 g3 show ?thesis by simp
qed

subsection \<open>The tabular export\<close>

text \<open>
  Claim C9. \<open>save_benchmark_data\<close> opens the file for writing, which replaces it, and
  writes rows computed from \<open>results\<close> and \<open>qubit_sizes\<close> alone. So a second call
  on the same table leaves the files as the first call left them and ends the same way,
  and the content of the CSV file does not depend on the state in which the call starts.
\<close>

theorem export_twice_same_file:
  "files (snd (save_benchmark_data res qs p (snd (save_benchmark_data res qs p w)))) =
     files (snd (save_benchmark_data res qs p w)) \<and>
   fst (save_benchmark_data res qs p (snd (save_benchmark_data res qs p w))) =
     fst (save_benchmark_data res qs p w) \<and>
   files (snd (save_benchmark_data res qs p w)) (path_join p ''benchmark_results.csv'') =
     Some (Csv (snd (csv_rows res 0 qs [csv_headers res])))"
  by (simp add: save_benchmark_data_def print_def Let_def split: prod.splits option.splits)

subsection \<open>No backend\<close>

text \<open>
  Claim C10. If the constructor of every requested backend raises an \<open>Exception\<close>,
  \<open>main\<close> ends with exit status 1 (through the uncaught exception of the CPU block, or
  through \<open>sys.exit(1)\<close> on the empty dictionary); \<open>run_benchmarks\<close> does not return,
  so there is no table; no circuit has been generated, no simulator has been run and no
  file has been written.
\<close>

theorem no_backend_aborts_run:
  assumes c: "requested ''cpu'' (backends a) \<longrightarrow>
      (\<exists>m. construct e (AerSimulator ''CPU'' (precision a) False) = Some (Exception m))"
    and g1: "requested ''gpu_default'' (backends a) \<longrightarrow>
      (\<exists>m. construct e (AerSimulator ''GPU'' (precision a) False) = Some (Exception m))"
    and g2: "requested ''gpu_custatevec'' (backends a) \<longrightarrow>
      (\<exists>m. construct e (AerSimulator ''GPU'' (precision a) True) = Some (Exception m))"
  shows "fst (main e a w) = 1 \<and>
     (\<exists>exc. fst (run_benchmarks e a w) = Inl exc) \<and>
     executed (snd (main e a w)) = executed w \<and>
     generated (snd (main e a w)) = generated w \<and>
     files (snd (main e a w)) = files w"
proof -
  let ?w0 = "(print Banner w)\<lparr>dirs := dirs w @ [output_dir a]\<rparr>"
  obtain r w1 where sb: "setup_backends e (precision a) (backends a) ?w0 = (r, w1)"
    by (cases "setup_backends e (precision a) (backends a) ?w0")
  from setup_backends_frame [of e "precision a" "backends a" ?w0] sb
  have f: "files w1 = files w" "executed w1 = executed w" "generated w1 = generated w"
    by (simp_all add: print_def)
  have "(\<exists>m. r = Inl (Exception m)) \<or> r = Inr []"
  proof (cases "requested ''cpu'' (backends a)")
    case True
    with c sb show ?thesis by (auto simp: setup_backends_def cpu_block_def)
  next
    case False
    then have cb: "cpu_block e (precision a) (backends a) ?w0 = (Inr [], ?w0)"
      by (simp add: cpu_block_def)
    obtain w2 where gb1: "gpu_block e ''gpu_default'' False (precision a) (backends a) [] ?w0 = (Inr [], w2)"
      using g1 by (cases "requested ''gpu_default'' (backends a)") (auto simp: gpu_block_def)
    obtain w3 where gb2: "gpu_block e ''gpu_custatevec'' True (precision a) (backends a) [] w2 = (Inr [], w3)"
      using g2 by (cases "requested ''gpu_custatevec'' (backends a)") (auto simp: gpu_block_def)
    from sb cb gb1 gb2 show ?thesis by (simp add: setup_backends_def)
  qed
  then show ?thesis
  proof
    assume "\<exists>m. r = Inl (Exception m)"
    then obtain m where "r = Inl (Exception m)" ..
    with sb f show ?thesis
      by (simp add: main_def run_benchmarks_def collect_results_def print_def)
  next
    assume "r = Inr []"
    with sb f show ?thesis
      by (simp add: main_def run_benchmarks_def collect_results_def print_def)
  qed
qed

theorem no_backend_aborts_run_witness:
  "fst (main env_no_backend (args_example\<lparr>backends := [''all'']\<rparr>) initial_world) = 1 \<and>
   executed (snd (main env_no_backend (args_example\<lparr>backends := [''all'']\<rparr>) initial_world)) = [] \<and>
   generated (snd (main env_no_backend (args_example\<lparr>backends := [''all'']\<rparr>) initial_world)) = [] \<and>
   files (snd (main env_no_backend (args_example\<lparr>backends := [''all'']\<rparr>) initial_world))
      ''./results/benchmark_results.csv'' = None"
  using no_backend_aborts_run [of "args_example\<lparr>backends := [''all'']\<rparr>" env_no_backend initial_world]
  by (simp add: env_no_backend_def initial_world_def)

subsection \<open>The unguarded CPU paths\<close>

text \<open>
  Claim C3. The claim asks that a backend whose construction fails be left out with a
  warning while the run continues, for every backend. The CPU block of
  \<open>setup_backends\<close> has no \<open>try\<close>: when the CPU constructor raises, the exception
  leaves \<open>setup_backends\<close> and \<open>run_benchmarks\<close>; \<open>main\<close> prints the error and exits
  with status 1. No warning is printed, and the GPU backends, which this outside would
  construct, are never tried.
\<close>

theorem cpu_constructor_failure_leaves_setup:
  "setup_backends env_cpu_unavailable ''double'' [''all''] initial_world =
     (Inl (Exception ''AerError''), initial_world) \<and>
   main env_cpu_unavailable (args_example\<lparr>backends := [''all'']\<rparr>) initial_world =
     (1, initial_world\<lparr>stdout := [Banner, Error_line (Exception ''AerError'')],
                        dirs := [''./results'']\<rparr>)"
  by (simp add: setup_backends_def cpu_block_def requested_def env_cpu_unavailable_def
      main_def run_benchmarks_def collect_results_def print_def args_example_def initial_world_def)

text \<open>
  Claim C1. The claim asks that an exception of a backend's execution be turned into a
  Failure cell and the sweep go on, for every backend. In benchmarks.py the CPU
  benchmark stands outside any \<open>try\<close>: when the CPU run raises at 4 qubits, the
  exception leaves the loop; the GPU backends are not run at 4 qubits and the size 6 is
  never reached.
\<close>

theorem script_cpu_failure_aborts_loop:
  "script_loop env_cpu_oom [2, 4, 6] [] [] [] initial_world =
     (Inl (Exception ''out of memory''),
      initial_world\<lparr>executed :=
          [(AerSimulator ''CPU'' ''double'' False, Circuit 2 10 42),
           (AerSimulator ''GPU'' ''double'' False, Circuit 2 10 42),
           (AerSimulator ''GPU'' ''double'' True, Circuit 2 10 42),
           (AerSimulator ''CPU'' ''double'' False, Circuit 4 10 42)],
        generated := [2, 4]\<rparr>)"
  by (simp add: make_circuit_def script_benchmark_def script_try_gpu_def env_cpu_oom_def
      initial_world_def)

subsection \<open>The trials of wip\_benchmarks.py catch every Exception\<close>

lemma append_cell_Inr:
  "name \<in> fst ` set res \<Longrightarrow> \<exists>res'. append_cell name t s res = Inr res'"
  by (simp add: append_cell_def)

lemma append_cell_other:
  "append_cell name t s res = Inr res' \<Longrightarrow> k \<noteq> name \<Longrightarrow> map_of res' k = map_of res k"
proof -
  assume a: "append_cell name t s res = Inr res'" and k: "k \<noteq> name"
  have "map_of (map (\<lambda>(k, ts, ss). if k = name then (k, ts @ [t], ss @ [s]) else (k, ts, ss)) res) k =
      map_of res k"
    using k by (induction res) auto
  with a show ?thesis by (auto simp: append_cell_def split: if_splits)
qed

lemma append_cell_extends:
  "append_cell name t s res = Inr res' \<Longrightarrow>
   list_all2 (\<lambda>old new. fst new = fst old \<and>
       take (length (fst (snd old))) (fst (snd new)) = fst (snd old) \<and>
       take (length (snd (snd old))) (snd (snd new)) = snd (snd old)) res res'"
  by (auto simp: append_cell_def list_all2_map2 list_all2_same split: if_splits)

lemma trial_catches_Exception:
  assumes "fst nb \<in> fst ` set res" and "trial e reps qc nb res w = (Inl exc, w')"
  shows "\<not> is_Exception exc"
proof -
  obtain r w1 where b: "benchmark e (snd nb) qc reps w = (r, w1)"
    by (cases "benchmark e (snd nb) qc reps w")
  from assms(1) append_cell_Inr obtain resN where n: "append_cell (fst nb) NaN NaN res = Inr resN"
    by blast
  have tf: "\<And>x. trial_failed (fst nb) x res w1 = (Inl exc, w') \<Longrightarrow> \<not> is_Exception exc"
    using n by (auto simp: trial_failed_def split: if_splits)
  show ?thesis
  proof (cases r)
    case (Inl x)
    with assms(2) b tf show ?thesis by (simp add: trial_def)
  next
    case (Inr ms)
    from assms(1) append_cell_Inr obtain resS where "append_cell (fst nb) (fst ms) (snd ms) res = Inr resS"
      by blast
    with Inr assms(2) b show ?thesis by (simp add: trial_def split: prod.splits)
  qed
qed

lemma trial_other_columns:
  assumes "trial e reps qc nb res w = (Inr res', w')" and "k \<noteq> fst nb"
  shows "map_of res' k = map_of res k"
  using trial_appends [OF assms(1)] append_cell_other assms(2) by blast

lemma for_backends_catches_Exception:
  "fst ` set bs \<subseteq> fst ` set res \<Longrightarrow> for_backends e reps qc bs res w = (Inl exc, w') \<Longrightarrow>
   \<not> is_Exception exc"
proof (induction bs arbitrary: res w)
  case Nil
  then show ?case by simp
next
  case (Cons nb bs)
  obtain r w1 where t: "trial e reps qc nb res w = (r, w1)" by (cases "trial e reps qc nb res w")
  show ?case
  proof (cases r)
    case (Inl x)
    with t Cons.prems have tr: "trial e reps qc nb res w = (Inl exc, w')" by simp
    from Cons.prems(1) have "fst nb \<in> fst ` set res" by simp
    from trial_catches_Exception [OF this tr] show ?thesis .
  next
    case (Inr res1)
    with t Cons.prems have r: "for_backends e reps qc bs res1 w1 = (Inl exc, w')" by simp
    from t Inr trial_appends obtain x y where "append_cell (fst nb) x y res = Inr res1" by blast
    then have "map fst res1 = map fst res" by (rule append_cell_keys)
    then have "fst ` set res1 = fst ` set res" by (metis set_map)
    with Cons.prems(1) have "fst ` set bs \<subseteq> fst ` set res1" by simp
    from Cons.IH [OF this r] show ?thesis .
  qed
qed

lemma sweep_raises_only_what_escapes:
  "fst ` set bs \<subseteq> fst ` set res \<Longrightarrow> sweep e a bs ns res w = (Inl exc, w') \<Longrightarrow>
   \<not> is_Exception exc \<or> (\<exists>h n. generate e h n = Some exc)"
proof (induction ns arbitrary: res w)
  case Nil
  then show ?case by simp
next
  case (Cons n ns)
  let ?w0 = "print (Benchmarking n) w"
  obtain r1 w1 where m: "make_circuit e n (depth a) (seed a) ?w0 = (r1, w1)"
    by (cases "make_circuit e n (depth a) (seed a) ?w0")
  show ?case
  proof (cases r1)
    case (Inl x)
    with m Cons.prems have "x = exc" by simp
    with m Inl have "generate e (generated ?w0) n = Some exc"
      by (auto simp: make_circuit_def split: option.splits)
    then show ?thesis by blast
  next
    case (Inr qc_t)
    obtain r2 w2 where f: "for_backends e (repeats a) qc_t bs res w1 = (r2, w2)"
      by (cases "for_backends e (repeats a) qc_t bs res w1")
    show ?thesis
    proof (cases r2)
      case (Inl x)
      with m Inr f Cons.prems have "for_backends e (repeats a) qc_t bs res w1 = (Inl exc, w')" by simp
      from for_backends_catches_Exception [OF Cons.prems(1) this] show ?thesis by simp
    next
      case r2: (Inr res2)
      with m Inr f Cons.prems have r: "sweep e a bs ns res2 w2 = (Inl exc, w')" by simp
      from for_backends_shape f r2 have "map fst res2 = map fst res" by blast
      then have "fst ` set res2 = fst ` set res" by (metis set_map)
      with Cons.prems(1) have "fst ` set bs \<subseteq> fst ` set res2" by simp
      from Cons.IH [OF this r] show ?thesis .
    qed
  qed
qed

subsection \<open>An interrupt\<close>







subsection \<open>The warmup\<close>

lemma benchmark_once:
  "benchmark e sim qc 1 w =
     (case run e (executed w) sim qc of
        Inl exc \<Rightarrow> (Inl exc, w\<lparr>executed := executed w @ [(sim, qc)]\<rparr>)
      | Inr d \<Rightarrow> (Inr (np_mean [d], np_std [d]), w\<lparr>executed := executed w @ [(sim, qc)]\<rparr>))"
  by (simp add: benchmark_def split: sum.splits)

lemma warmup_backends_runs_each_once:
  assumes "\<forall>h nb exc. nb \<in> set bs \<longrightarrow> run e h (snd nb) qc = Inl exc \<longrightarrow> is_Exception exc"
  shows "\<exists>w'. warmup_backends e qc bs w = (Inr (), w') \<and>
     executed w' = executed w @ map (\<lambda>nb. (snd nb, qc)) bs \<and>
     (\<exists>ls. stdout w' = stdout w @ ls) \<and>
     (\<forall>i<length bs. \<forall>exc.
        run e (executed w @ map (\<lambda>nb. (snd nb, qc)) (take i bs)) (snd (bs ! i)) qc = Inl exc
        \<longrightarrow> Warmup_failed (fst (bs ! i)) exc \<in> set (stdout w'))"
  using assms
proof (induction bs arbitrary: w)
  case Nil
  then show ?case by simp
next
  case (Cons nb bs)
  let ?ex = "w\<lparr>executed := executed w @ [(snd nb, qc)]\<rparr>"
  define l where "l = (case run e (executed w) (snd nb) qc of
      Inl exc \<Rightarrow> Warmup_failed (fst nb) exc | Inr d \<Rightarrow> Warmup_complete (fst nb))"
  let ?w1 = "print l ?ex"
  have step: "warmup_backends e qc (nb # bs) w = warmup_backends e qc bs ?w1"
  proof (cases "run e (executed w) (snd nb) qc")
    case (Inl exc)
    have "nb \<in> set (nb # bs)" by simp
    with Cons.prems Inl have "is_Exception exc" by blast
    with Inl show ?thesis by (simp add: benchmark_once l_def)
  next
    case (Inr d)
    then show ?thesis by (simp add: benchmark_once l_def)
  qed
  from Cons.prems have "\<forall>h nb exc. nb \<in> set bs \<longrightarrow> run e h (snd nb) qc = Inl exc \<longrightarrow> is_Exception exc"
    by auto
  from Cons.IH [OF this, of ?w1] obtain w' ls where
    r: "warmup_backends e qc bs ?w1 = (Inr (), w')" and
    ex: "executed w' = executed ?w1 @ map (\<lambda>nb. (snd nb, qc)) bs" and
    ls: "stdout w' = stdout ?w1 @ ls" and
    lg: "\<forall>i<length bs. \<forall>exc.
        run e (executed ?w1 @ map (\<lambda>nb. (snd nb, qc)) (take i bs)) (snd (bs ! i)) qc = Inl exc
        \<longrightarrow> Warmup_failed (fst (bs ! i)) exc \<in> set (stdout w')"
    by blast
  have e1: "executed ?w1 = executed w @ [(snd nb, qc)]" by (simp add: print_def)
  have s1: "stdout ?w1 = stdout w @ [l]" by (simp add: print_def)
  have "\<forall>i<length (nb # bs). \<forall>exc.
        run e (executed w @ map (\<lambda>nb. (snd nb, qc)) (take i (nb # bs))) (snd ((nb # bs) ! i)) qc = Inl exc
        \<longrightarrow> Warmup_failed (fst ((nb # bs) ! i)) exc \<in> set (stdout w')"
  proof (intro allI impI)
    fix i exc
    assume i: "i < length (nb # bs)"
      and f: "run e (executed w @ map (\<lambda>nb. (snd nb, qc)) (take i (nb # bs))) (snd ((nb # bs) ! i)) qc = Inl exc"
    show "Warmup_failed (fst ((nb # bs) ! i)) exc \<in> set (stdout w')"
    proof (cases i)
      case 0
      with f have "l = Warmup_failed (fst nb) exc" by (simp add: l_def)
      with ls s1 0 show ?thesis by simp
    next
      case (Suc j)
      with i f lg e1 show ?thesis by simp
    qed
  qed
  moreover from ex e1 have "executed w' = executed w @ map (\<lambda>nb. (snd nb, qc)) (nb # bs)" by simp
  moreover from ls s1 have "\<exists>ls. stdout w' = stdout w @ ls" by simp
  ultimately show ?case using step r by simp
qed




subsection \<open>The repeat count and the step\<close>







subsection \<open>The speedup lines\<close>

lemma fdiv_NaN: "fdiv NaN y = NaN" "fdiv x NaN = NaN"
  by (cases x; simp)+

lemma np_divide_same_length:
  "length xs = length ys \<Longrightarrow> np_divide xs ys = Inr (map2 fdiv xs ys)"
  by (simp add: np_divide_def)

lemma plot_speedups_lines:
  assumes "\<forall>(name, ts, ss) \<in> set res. length ts = length qs" and "length cpu_times = length qs"
  shows "plot_speedups cpu_times qs res ax =
     Inr (ax @ map (\<lambda>(name, ts, ss). (name @ '' vs CPU'', qs, map2 fdiv cpu_times ts))
                (filter (\<lambda>(name, ts, ss). name \<noteq> ''cpu'') res))"
  using assms
proof (induction res arbitrary: ax)
  case Nil
  then show ?case by simp
next
  case (Cons c res)
  obtain name ts ss where c: "c = (name, ts, ss)" by (cases c)
  from Cons.prems c have l: "length ts = length qs" by simp
  from Cons.prems have r: "\<forall>(name, ts, ss) \<in> set res. length ts = length qs" by simp
  note ih = Cons.IH [OF r Cons.prems(2)]
  show ?case
  proof (cases "name = ''cpu''")
    case True
    with c ih show ?thesis by simp
  next
    case False
    with c l Cons.prems(2) ih show ?thesis
      by (simp add: np_divide_same_length plot_def)
  qed
qed

lemma plot_times_lines:
  assumes "\<forall>(name, ts, ss) \<in> set res. length ts = length qs"
  shows "plot_times qs res ax = Inr (ax @ map (\<lambda>(name, ts, ss). (name, qs, ts)) res)"
  using assms
proof (induction res arbitrary: ax)
  case Nil
  then show ?case by simp
next
  case (Cons c res)
  obtain name ts ss where c: "c = (name, ts, ss)" by (cases c)
  from Cons.prems c have l: "length ts = length qs" by simp
  from Cons.prems have r: "\<forall>(name, ts, ss) \<in> set res. length ts = length qs" by simp
  from Cons.IH [OF r] c l show ?case by (simp add: plot_def)
qed

text \<open>
  Claim C5, as amended. For a table in which every backend has one time per size:
  building the figure raises nothing, in particular no division error, and
  \<open>generate_plots\<close> ends normally. Without the key \<open>'cpu'\<close> the figure has no speedup
  line. With it, every other backend has one speedup line with one point per size,
  whose value is the CPU time divided by the backend's time; where either of the two
  cells is NaN (a failure), the value of the point is NaN: it is handed to the chart as
  it is, neither left out nor replaced. The functions take the table as a value and
  return none: the table is only read.
\<close>

theorem speedup_of_failure_is_nan_point:
  assumes "\<forall>(name, ts, ss) \<in> set res. length ts = length qs"
  shows "build_figure res qs =
       Inr \<lparr>speedup_lines =
              (case map_of res ''cpu'' of
                 None \<Rightarrow> []
               | Some cpu \<Rightarrow>
                   map (\<lambda>(name, ts, ss). (name @ '' vs CPU'', qs, map2 fdiv (fst cpu) ts))
                     (filter (\<lambda>(name, ts, ss). name \<noteq> ''cpu'') res)),
            time_lines = map (\<lambda>(name, ts, ss). (name, qs, ts)) res\<rparr> \<and>
     fst (generate_plots res qs p w) = Inr () \<and>
     (\<forall>cpu name ts ss i. map_of res ''cpu'' = Some cpu \<and> (name, ts, ss) \<in> set res \<and>
         i < length qs \<and> (fst cpu ! i = NaN \<or> ts ! i = NaN)
       \<longrightarrow> map2 fdiv (fst cpu) ts ! i = NaN)"
proof -
  have sp: "(case map_of res ''cpu'' of
              Some cpu \<Rightarrow> plot_speedups (fst cpu) qs res []
            | None \<Rightarrow> Inr []) =
      Inr (case map_of res ''cpu'' of
                 None \<Rightarrow> []
               | Some cpu \<Rightarrow>
                   map (\<lambda>(name, ts, ss). (name @ '' vs CPU'', qs, map2 fdiv (fst cpu) ts))
                     (filter (\<lambda>(name, ts, ss). name \<noteq> ''cpu'') res))"
  proof (cases "map_of res ''cpu''")
    case None
    then show ?thesis by simp
  next
    case (Some cpu)
    then have "(''cpu'', cpu) \<in> set res" by (rule map_of_SomeD)
    with assms have "length (fst cpu) = length qs" by (cases cpu) auto
    from plot_speedups_lines [OF assms this, of "[]"] Some show ?thesis by simp
  qed
  have fig: "build_figure res qs =
       Inr \<lparr>speedup_lines =
              (case map_of res ''cpu'' of
                 None \<Rightarrow> []
               | Some cpu \<Rightarrow>
                   map (\<lambda>(name, ts, ss). (name @ '' vs CPU'', qs, map2 fdiv (fst cpu) ts))
                     (filter (\<lambda>(name, ts, ss). name \<noteq> ''cpu'') res)),
            time_lines = map (\<lambda>(name, ts, ss). (name, qs, ts)) res\<rparr>"
    unfolding build_figure_def sp by (simp add: plot_times_lines [OF assms])
  then have gp: "fst (generate_plots res qs p w) = Inr ()"
    by (simp add: generate_plots_def Let_def)
  have nan: "\<forall>cpu name ts ss i. map_of res ''cpu'' = Some cpu \<and> (name, ts, ss) \<in> set res \<and>
         i < length qs \<and> (fst cpu ! i = NaN \<or> ts ! i = NaN)
       \<longrightarrow> map2 fdiv (fst cpu) ts ! i = NaN"
  proof (intro allI impI)
    fix cpu name ts ss i
    assume h: "map_of res ''cpu'' = Some cpu \<and> (name, ts, ss) \<in> set res \<and>
         i < length qs \<and> (fst cpu ! i = NaN \<or> ts ! i = NaN)"
    then have "(''cpu'', cpu) \<in> set res" by (auto dest: map_of_SomeD)
    with assms have "length (fst cpu) = length qs" by (cases cpu) auto
    moreover from h assms have "length ts = length qs" by auto
    ultimately show "map2 fdiv (fst cpu) ts ! i = NaN"
      using h by (auto simp: fdiv_NaN)
  qed
  from fig gp nan show ?thesis by blast
qed

theorem speedup_of_failure_is_nan_point_witness:
  "build_figure [(''cpu'', [Fin 1, Fin 2], [Fin 0, Fin 0]), (''gpu_default'', [Fin 2, NaN], [Fin 0, NaN])] [2, 4] =
     Inr \<lparr>speedup_lines = [(''gpu_default vs CPU'', [2, 4], [Fin (1 / 2), NaN])],
          time_lines = [(''cpu'', [2, 4], [Fin 1, Fin 2]), (''gpu_default'', [2, 4], [Fin 2, NaN])]\<rparr> \<and>
   fst (generate_plots [(''cpu'', [Fin 1, Fin 2], [Fin 0, Fin 0]), (''gpu_default'', [Fin 2, NaN], [Fin 0, NaN])]
         [2, 4] ''./results'' initial_world) = Inr ()"
  using speedup_of_failure_is_nan_point [of
      "[(''cpu'', [Fin 1, Fin 2], [Fin 0, Fin 0]), (''gpu_default'', [Fin 2, NaN], [Fin 0, NaN])]"
      "[2, 4]" "''./results''" initial_world]
  by simp

text \<open>
  Claim C5 as stated fails: in a table of one size where the GPU cell is a failure, the
  speedup line of that backend has a point at that size, and its value is NaN; the
  figure with that point is what is saved.
\<close>

theorem speedup_nan_plotted_counterexample:
  "build_figure [(''cpu'', [Fin 1], [Fin 0]), (''gpu_default'', [NaN], [NaN])] [2] =
     Inr \<lparr>speedup_lines = [(''gpu_default vs CPU'', [2], [NaN])],
          time_lines = [(''cpu'', [2], [Fin 1]), (''gpu_default'', [2], [NaN])]\<rparr> \<and>
   files (snd (generate_plots [(''cpu'', [Fin 1], [Fin 0]), (''gpu_default'', [NaN], [NaN])] [2]
                ''./results'' initial_world)) ''./results/benchmark_comparison.png'' =
     Some (Plot \<lparr>speedup_lines = [(''gpu_default vs CPU'', [2], [NaN])],
                 time_lines = [(''cpu'', [2], [Fin 1]), (''gpu_default'', [2], [NaN])]\<rparr>)"
  by (simp add: generate_plots_def build_figure_def np_divide_def plot_def path_join_def
      print_def Let_def initial_world_def)

subsection \<open>A GPU backend that cannot be constructed\<close>

lemma gpu_block_stdout:
  "\<exists>ls. stdout (snd (gpu_block e name cusv prec bl bs w)) = stdout w @ ls"
  by (simp add: gpu_block_def print_def split: option.splits)

lemma gpu_block_warns:
  assumes "gpu_block e name cusv prec bl bs w = (Inr bs', w')" and "requested name bl"
    and "construct e (AerSimulator ''GPU'' prec cusv) = Some exc"
  shows "is_Exception exc \<and> bs' = bs \<and> w' = print (Backend_failed_warning name exc) w"
  using assms by (auto simp: gpu_block_def split: if_splits)

lemma gpu_failure_excluded_with_warning:
  assumes sb: "setup_backends e prec bl w = (Inr bs, w')"
    and rq: "requested name bl"
    and nm: "(name, cusv) = (''gpu_default'', False) \<or> (name, cusv) = (''gpu_custatevec'', True)"
    and cf: "construct e (AerSimulator ''GPU'' prec cusv) = Some exc"
  shows "is_Exception exc \<and> name \<notin> fst ` set bs \<and> Backend_failed_warning name exc \<in> set (stdout w')"
proof -
  from sb obtain b1 w1 b2 w2 where
    c: "cpu_block e prec bl w = (Inr b1, w1)" and
    g1: "gpu_block e ''gpu_default'' False prec bl b1 w1 = (Inr b2, w2)" and
    g2: "gpu_block e ''gpu_custatevec'' True prec bl b2 w2 = (Inr bs, w')"
    by (auto simp: setup_backends_def split: prod.splits sum.splits)
  from setup_backends_keys [OF sb] nm cf have ex: "name \<notin> fst ` set bs"
    by (auto split: if_splits)
  from nm show ?thesis
  proof
    assume n: "(name, cusv) = (''gpu_default'', False)"
    with gpu_block_warns [OF g1] rq cf
    have e: "is_Exception exc" and w2: "w2 = print (Backend_failed_warning name exc) w1" by simp_all
    from gpu_block_stdout [of e "''gpu_custatevec''" True prec bl b2 w2] g2
    obtain ls where "stdout w' = stdout w2 @ ls" by auto
    with w2 have "Backend_failed_warning name exc \<in> set (stdout w')" by (simp add: print_def)
    with e ex show ?thesis by simp
  next
    assume n: "(name, cusv) = (''gpu_custatevec'', True)"
    with gpu_block_warns [OF g2] rq cf
    have "is_Exception exc" and "w' = print (Backend_failed_warning name exc) w2" by simp_all
    with ex show ?thesis by (simp add: print_def)
  qed
qed

subsection \<open>The rows of the CSV file\<close>

lemma csv_cells_complete:
  "\<forall>(name, ts, ss) \<in> set res. i < length ts \<and> i < length ss \<Longrightarrow>
   csv_cells res i =
     Inr (concat (map (\<lambda>(name, ts, ss). [Float_field (ts ! i), Float_field (ss ! i)]) res))"
  by (induction res i rule: csv_cells.induct) auto

lemma csv_rows_complete:
  "\<forall>(name, ts, ss) \<in> set res. i + length ns \<le> length ts \<and> i + length ns \<le> length ss \<Longrightarrow>
   csv_rows res i ns written =
     (None, written @
        map (\<lambda>(j, n). Int_field n #
               concat (map (\<lambda>(name, ts, ss). [Float_field (ts ! j), Float_field (ss ! j)]) res))
          (zip [i..<i + length ns] ns))"
proof (induction ns arbitrary: i written)
  case Nil
  then show ?case by simp
next
  case (Cons n ns)
  from Cons.prems have "\<forall>(name, ts, ss) \<in> set res. i < length ts \<and> i < length ss" by auto
  then have c: "csv_cells res i =
     Inr (concat (map (\<lambda>(name, ts, ss). [Float_field (ts ! i), Float_field (ss ! i)]) res))"
    by (rule csv_cells_complete)
  from Cons.prems
  have "\<forall>(name, ts, ss) \<in> set res. Suc i + length ns \<le> length ts \<and> Suc i + length ns \<le> length ss"
    by auto
  note ih = Cons.IH [OF this]
  have u: "[i..<i + length (n # ns)] = i # [Suc i..<Suc i + length ns]"
    by (simp del: upt_Suc add: upt_conv_Cons)
  show ?case
    unfolding u using ih c by (simp del: upt_Suc)
qed

lemma csv_of_complete_table:
  assumes "\<forall>(name, ts, ss) \<in> set res. length ts = length qs \<and> length ss = length qs"
  shows "save_benchmark_data res qs p w =
     (Inr (),
      print (Saved_data (path_join p ''benchmark_results.csv''))
        (w\<lparr>files := (files w)(path_join p ''benchmark_results.csv'' \<mapsto>
            Csv (csv_headers res #
                 map (\<lambda>(j, n). Int_field n #
                        concat (map (\<lambda>(name, ts, ss). [Float_field (ts ! j), Float_field (ss ! j)]) res))
                   (zip [0..<length qs] qs)))\<rparr>))"
proof -
  from assms have "\<forall>(name, ts, ss) \<in> set res. 0 + length qs \<le> length ts \<and> 0 + length qs \<le> length ss"
    by auto
  from csv_rows_complete [OF this, of "[csv_headers res]"] show ?thesis
    by (simp add: save_benchmark_data_def Let_def)
qed

subsection \<open>The cells of the table\<close>

lemma recorded_later:
  "recorded e reps w1 sim qc c \<Longrightarrow> executed w2 = executed w1 @ t \<Longrightarrow> recorded e reps w2 sim qc c"
  unfolding recorded_def by force

lemma benchmark_executed_grows:
  "\<exists>t. executed (snd (benchmark e sim qc reps w)) = executed w @ t"
  using benchmark_frame [of reps e sim qc w] by auto

lemma trial_records:
  assumes "trial e reps qc nb res w = (Inr res', w')"
  shows "\<exists>c1 c2. res' = map (\<lambda>(k, ts, ss). if k = fst nb then (k, ts @ [c1], ss @ [c2]) else (k, ts, ss)) res \<and>
     executed w' = executed (snd (benchmark e (snd nb) qc reps w)) \<and>
     (case fst (benchmark e (snd nb) qc reps w) of
        Inr ms \<Rightarrow> (c1, c2) = ms
      | Inl exc \<Rightarrow> is_Exception exc \<and> (c1, c2) = (NaN, NaN))"
proof -
  obtain r w1 where b: "benchmark e (snd nb) qc reps w = (r, w1)"
    by (cases "benchmark e (snd nb) qc reps w")
  have tf: "\<And>x. trial_failed (fst nb) x res w1 = (Inr res', w') \<Longrightarrow>
      is_Exception x \<and> fst nb \<in> fst ` set res \<and>
      res' = map (\<lambda>(k, ts, ss). if k = fst nb then (k, ts @ [NaN], ss @ [NaN]) else (k, ts, ss)) res \<and>
      executed w' = executed w1"
    by (auto simp: trial_failed_def append_cell_def print_def split: if_splits)
  show ?thesis
  proof (cases r)
    case (Inl x)
    with assms b have "trial_failed (fst nb) x res w1 = (Inr res', w')" by (simp add: trial_def)
    from tf [OF this] b Inl show ?thesis
      by (intro exI [of _ NaN]) simp
  next
    case (Inr ms)
    show ?thesis
    proof (cases "append_cell (fst nb) (fst ms) (snd ms) res")
      case (Inl x)
      with assms b Inr have "trial_failed (fst nb) x res w1 = (Inr res', w')"
        by (simp add: trial_def split: prod.splits)
      from tf [OF this] have "fst nb \<in> fst ` set res" by simp
      with Inl show ?thesis by (simp add: append_cell_def)
    next
      case a: (Inr res1)
      with assms b Inr have "res' = res1" and
        "w' = print (Timing (fst nb) (fst ms) (if 1 < reps then Some (snd ms) else None)) w1"
        by (auto simp: trial_def split: prod.splits)
      then have "res' = res1" and "executed w' = executed w1"
        by (simp_all add: print_def)
      with a b Inr show ?thesis
        by (intro exI [of _ "fst ms"] exI [of _ "snd ms"]) (auto simp: append_cell_def split: if_splits)
    qed
  qed
qed

lemma trial_executed_grows:
  "\<exists>t. executed (snd (trial e reps qc nb res w)) = executed w @ t"
proof -
  obtain r w1 where b: "benchmark e (snd nb) qc reps w = (r, w1)"
    by (cases "benchmark e (snd nb) qc reps w")
  with benchmark_executed_grows [of e "snd nb" qc reps w] obtain t where "executed w1 = executed w @ t"
    by auto
  then show ?thesis
    by (auto simp: trial_def b trial_failed_def print_def split: sum.splits prod.splits)
qed

lemma for_backends_executed_grows:
  "\<exists>t. executed (snd (for_backends e reps qc bs res w)) = executed w @ t"
proof (induction bs arbitrary: res w)
  case Nil
  then show ?case by simp
next
  case (Cons nb bs)
  obtain r w1 where t: "trial e reps qc nb res w = (r, w1)" by (cases "trial e reps qc nb res w")
  with trial_executed_grows [of e reps qc nb res w] obtain t1 where t1: "executed w1 = executed w @ t1"
    by auto
  show ?case
  proof (cases r)
    case (Inl exc)
    with t t1 show ?thesis by simp
  next
    case (Inr res1)
    from Cons.IH [of res1 w1] obtain t2 where
      "executed (snd (for_backends e reps qc bs res1 w1)) = executed w1 @ t2" ..
    with t Inr t1 show ?thesis by simp
  qed
qed

lemma sweep_executed_grows:
  "\<exists>t. executed (snd (sweep e a bs ns res w)) = executed w @ t"
proof (induction ns arbitrary: res w)
  case Nil
  then show ?case by simp
next
  case (Cons n ns)
  let ?w0 = "print (Benchmarking n) w"
  obtain r1 w1 where m: "make_circuit e n (depth a) (seed a) ?w0 = (r1, w1)"
    by (cases "make_circuit e n (depth a) (seed a) ?w0")
  with make_circuit_frame [of e n "depth a" "seed a" ?w0]
  have e1: "executed w1 = executed w" by (simp add: print_def)
  show ?case
  proof (cases r1)
    case (Inl exc)
    with m e1 show ?thesis by simp
  next
    case (Inr qc_t)
    obtain r2 w2 where f: "for_backends e (repeats a) qc_t bs res w1 = (r2, w2)"
      by (cases "for_backends e (repeats a) qc_t bs res w1")
    with for_backends_executed_grows [of e "repeats a" qc_t bs res w1] e1
    obtain t2 where e2: "executed w2 = executed w @ t2" by auto
    show ?thesis
    proof (cases r2)
      case (Inl exc)
      with m Inr f e2 show ?thesis by simp
    next
      case r2: (Inr res2)
      from Cons.IH [of res2 w2] obtain t3 where
        "executed (snd (sweep e a bs ns res2 w2)) = executed w2 @ t3" ..
      with m Inr f r2 e2 show ?thesis by simp
    qed
  qed
qed

lemma for_backends_records:
  assumes "distinct (map fst bs)" and "for_backends e reps qc bs res w = (Inr res', w')"
  shows "list_all2 (\<lambda>old new. fst new = fst old \<and>
      (if fst old \<in> fst ` set bs
       then \<exists>sim c1 c2. (fst old, sim) \<in> set bs \<and> recorded e reps w' sim qc (c1, c2) \<and>
              fst (snd new) = fst (snd old) @ [c1] \<and> snd (snd new) = snd (snd old) @ [c2]
       else snd new = snd old)) res res'"
  using assms
proof (induction bs arbitrary: res w)
  case Nil
  then show ?case by (simp add: list_all2_same)
next
  case (Cons nb bs)
  from Cons.prems(2) obtain res1 w1 where
    t: "trial e reps qc nb res w = (Inr res1, w1)" and
    r: "for_backends e reps qc bs res1 w1 = (Inr res', w')"
    by (auto split: prod.splits sum.splits)
  from trial_records [OF t] obtain c1 c2 where
    res1: "res1 = map (\<lambda>(k, ts, ss). if k = fst nb then (k, ts @ [c1], ss @ [c2]) else (k, ts, ss)) res" and
    e1: "executed w1 = executed (snd (benchmark e (snd nb) qc reps w))" and
    c: "case fst (benchmark e (snd nb) qc reps w) of
          Inr ms \<Rightarrow> (c1, c2) = ms
        | Inl exc \<Rightarrow> is_Exception exc \<and> (c1, c2) = (NaN, NaN)"
    by blast
  from e1 c have "recorded e reps w1 (snd nb) qc (c1, c2)"
    unfolding recorded_def by (intro exI [of _ w] exI [of _ "[]"]) simp
  moreover from for_backends_executed_grows [of e reps qc bs res1 w1] r
  obtain t' where "executed w' = executed w1 @ t'" by auto
  ultimately have rec: "recorded e reps w' (snd nb) qc (c1, c2)" by (rule recorded_later)
  from Cons.prems(1) have d: "distinct (map fst bs)" and nin: "fst nb \<notin> fst ` set bs" by auto
  let ?f = "\<lambda>(k, ts, ss). if k = fst nb then (k, ts @ [c1], ss @ [c2]) else (k, ts, ss)"
  let ?Rrest = "\<lambda>old new. fst new = fst old \<and>
      (if fst old \<in> fst ` set bs
       then \<exists>sim c1 c2. (fst old, sim) \<in> set bs \<and> recorded e reps w' sim qc (c1, c2) \<and>
              fst (snd new) = fst (snd old) @ [c1] \<and> snd (snd new) = snd (snd old) @ [c2]
       else snd new = snd old)"
  let ?R = "\<lambda>old new. fst new = fst old \<and>
      (if fst old \<in> fst ` set (nb # bs)
       then \<exists>sim c1 c2. (fst old, sim) \<in> set (nb # bs) \<and> recorded e reps w' sim qc (c1, c2) \<and>
              fst (snd new) = fst (snd old) @ [c1] \<and> snd (snd new) = snd (snd old) @ [c2]
       else snd new = snd old)"
  from Cons.IH [OF d r] res1 have "list_all2 (\<lambda>x y. ?Rrest (?f x) y) res res'"
    by (simp add: list_all2_map1)
  moreover have "\<And>x y. ?Rrest (?f x) y \<Longrightarrow> ?R x y"
  proof -
    fix x :: "string \<times> npfloat list \<times> npfloat list" and y :: "string \<times> npfloat list \<times> npfloat list"
    assume h: "?Rrest (?f x) y"
    obtain k ts ss where x: "x = (k, ts, ss)" by (cases x)
    show "?R x y"
    proof (cases "k = fst nb")
      case True
      with h x nin have "fst y = k" and "snd y = (ts @ [c1], ss @ [c2])" by auto
      moreover from True have "(k, snd nb) \<in> set (nb # bs)" by simp
      moreover from True have kin: "fst x \<in> fst ` set (nb # bs)" using x by simp
      ultimately have "fst y = fst x \<and>
          (\<exists>sim c1 c2. (fst x, sim) \<in> set (nb # bs) \<and> recorded e reps w' sim qc (c1, c2) \<and>
              fst (snd y) = fst (snd x) @ [c1] \<and> snd (snd y) = snd (snd x) @ [c2])"
        using x rec by (intro conjI exI [of _ "snd nb"] exI [of _ c1] exI [of _ c2]) simp_all
      with kin show ?thesis by presburger
    next
      case False
      with x have fx: "?f x = x" by simp
      from h have h': "?Rrest x y" unfolding fx .
      from False x have iff: "fst x \<in> fst ` set (nb # bs) \<longleftrightarrow> fst x \<in> fst ` set bs" by auto
      show ?thesis
      proof (cases "fst x \<in> fst ` set bs")
        case True
        with h' obtain sim d1 d2 where "(fst x, sim) \<in> set bs" and
          "recorded e reps w' sim qc (d1, d2)" and
          "fst (snd y) = fst (snd x) @ [d1]" and "snd (snd y) = snd (snd x) @ [d2]"
          by auto
        then have "\<exists>sim c1 c2. (fst x, sim) \<in> set (nb # bs) \<and> recorded e reps w' sim qc (c1, c2) \<and>
              fst (snd y) = fst (snd x) @ [c1] \<and> snd (snd y) = snd (snd x) @ [c2]"
          by (intro exI [of _ sim] exI [of _ d1] exI [of _ d2]) simp
        with h' True iff show ?thesis by presburger
      next
        case nk: False
        with h' iff show ?thesis by presburger
      qed
    qed
  qed
  ultimately show ?case by (rule list_all2_mono)
qed

lemma make_circuit_Inr:
  "make_circuit e n d sd w = (Inr qc, w1) \<Longrightarrow> qc = Circuit n d sd"
  by (auto simp: make_circuit_def split: option.splits)

lemma sweep_records:
  assumes "distinct (map fst bs)" and "sweep e a bs ns res w = (Inr res', w')"
  shows "list_all2 (\<lambda>old new. fst new = fst old \<and>
      (fst old \<in> fst ` set bs \<longrightarrow>
         (\<exists>sim cs. (fst old, sim) \<in> set bs \<and> length cs = length ns \<and>
            fst (snd new) = fst (snd old) @ map fst cs \<and>
            snd (snd new) = snd (snd old) @ map snd cs \<and>
            (\<forall>i<length ns.
               recorded e (repeats a) w' sim (Circuit (ns ! i) (depth a) (seed a)) (cs ! i))))) res res'"
  using assms
proof (induction ns arbitrary: res w)
  case Nil
  then have "res' = res" by simp
  then show ?case by (force simp: list_all2_same)
next
  case (Cons n ns)
  let ?qc = "Circuit n (depth a) (seed a)"
  from Cons.prems(2) obtain qc w1 res2 w2 where
    m: "make_circuit e n (depth a) (seed a) (print (Benchmarking n) w) = (Inr qc, w1)" and
    f: "for_backends e (repeats a) qc bs res w1 = (Inr res2, w2)" and
    r: "sweep e a bs ns res2 w2 = (Inr res', w')"
    by (auto split: prod.splits sum.splits)
  from make_circuit_Inr [OF m] have qc: "qc = ?qc" .
  from sweep_executed_grows [of e a bs ns res2 w2] r
  obtain t where gr: "executed w' = executed w2 @ t" by auto
  let ?R1 = "\<lambda>old new. fst new = fst old \<and>
      (if fst old \<in> fst ` set bs
       then \<exists>sim c1 c2. (fst old, sim) \<in> set bs \<and> recorded e (repeats a) w2 sim ?qc (c1, c2) \<and>
              fst (snd new) = fst (snd old) @ [c1] \<and> snd (snd new) = snd (snd old) @ [c2]
       else snd new = snd old)"
  let ?R2 = "\<lambda>old new. fst new = fst old \<and>
      (fst old \<in> fst ` set bs \<longrightarrow>
         (\<exists>sim cs. (fst old, sim) \<in> set bs \<and> length cs = length ns \<and>
            fst (snd new) = fst (snd old) @ map fst cs \<and>
            snd (snd new) = snd (snd old) @ map snd cs \<and>
            (\<forall>i<length ns.
               recorded e (repeats a) w' sim (Circuit (ns ! i) (depth a) (seed a)) (cs ! i))))"
  let ?R = "\<lambda>old new. fst new = fst old \<and>
      (fst old \<in> fst ` set bs \<longrightarrow>
         (\<exists>sim cs. (fst old, sim) \<in> set bs \<and> length cs = length (n # ns) \<and>
            fst (snd new) = fst (snd old) @ map fst cs \<and>
            snd (snd new) = snd (snd old) @ map snd cs \<and>
            (\<forall>i<length (n # ns).
               recorded e (repeats a) w' sim (Circuit ((n # ns) ! i) (depth a) (seed a)) (cs ! i))))"
  have one: "list_all2 ?R1 res res2"
    using for_backends_records [OF Cons.prems(1) f] unfolding qc .
  from Cons.IH [OF Cons.prems(1) r] have two: "list_all2 ?R2 res2 res'" .
  have tr: "\<And>x y z. ?R1 x y \<Longrightarrow> ?R2 y z \<Longrightarrow> ?R x z"
  proof -
    fix x y z :: "string \<times> npfloat list \<times> npfloat list"
    assume h1: "?R1 x y" and h2: "?R2 y z"
    then have k: "fst z = fst x" and ky: "fst y = fst x" by simp_all
    show "?R x z"
    proof (cases "fst x \<in> fst ` set bs")
      case False
      with k show ?thesis by simp
    next
      case True
      with h1 obtain sim1 c1 c2 where
        s1: "(fst x, sim1) \<in> set bs" and
        rc: "recorded e (repeats a) w2 sim1 ?qc (c1, c2)" and
        y1: "fst (snd y) = fst (snd x) @ [c1]" and y2: "snd (snd y) = snd (snd x) @ [c2]"
        by auto
      from True ky h2 obtain sim2 cs where
        s2: "(fst x, sim2) \<in> set bs" and l: "length cs = length ns" and
        z1: "fst (snd z) = fst (snd y) @ map fst cs" and
        z2: "snd (snd z) = snd (snd y) @ map snd cs" and
        rs: "\<forall>i<length ns. recorded e (repeats a) w' sim2 (Circuit (ns ! i) (depth a) (seed a)) (cs ! i)"
        by auto
      from Cons.prems(1) s1 s2 have same: "sim2 = sim1" by (metis eq_key_imp_eq_value)
      from rc gr have rc': "recorded e (repeats a) w' sim1 ?qc (c1, c2)" by (rule recorded_later)
      have all: "\<forall>i<length (n # ns).
          recorded e (repeats a) w' sim1 (Circuit ((n # ns) ! i) (depth a) (seed a)) (((c1, c2) # cs) ! i)"
      proof (intro allI impI)
        fix i assume "i < length (n # ns)"
        with rc' rs same
        show "recorded e (repeats a) w' sim1 (Circuit ((n # ns) ! i) (depth a) (seed a)) (((c1, c2) # cs) ! i)"
          by (cases i) simp_all
      qed
      have "\<exists>sim cs. (fst x, sim) \<in> set bs \<and> length cs = length (n # ns) \<and>
            fst (snd z) = fst (snd x) @ map fst cs \<and>
            snd (snd z) = snd (snd x) @ map snd cs \<and>
            (\<forall>i<length (n # ns).
               recorded e (repeats a) w' sim (Circuit ((n # ns) ! i) (depth a) (seed a)) (cs ! i))"
        using s1 l y1 y2 z1 z2 all
        by (intro exI [of _ sim1] exI [of _ "(c1, c2) # cs"]) simp
      with k show ?thesis by simp
    qed
  qed
  from list_all2_trans [of ?R1 ?R2 ?R, OF tr one two] show ?case .
qed

lemma collect_results_cells:
  assumes "collect_results e a w = (Inr (qubit_sizes, res), w')"
  shows "\<exists>bs w1. setup_backends e (precision a) (backends a) w = (Inr bs, w1) \<and>
     map fst res = map fst bs \<and>
     (\<forall>j<length bs. \<forall>i<length qubit_sizes.
        recorded e (repeats a) w' (snd (bs ! j)) (Circuit (qubit_sizes ! i) (depth a) (seed a))
          (fst (snd (res ! j)) ! i, snd (snd (res ! j)) ! i))"
proof -
  from collect_results_Inr [OF assms] obtain bs w1 w2 where
    sb: "setup_backends e (precision a) (backends a) w = (Inr bs, w1)" and
    sw: "sweep e a bs qubit_sizes (init_results bs) (print Starting_benchmark w2) = (Inr res, w')"
    by blast
  have d: "distinct (map fst bs)" by (rule setup_backends_distinct [OF sb])
  from sweep_shape [OF sw] have ks: "map fst res = map fst bs"
    by (simp add: init_results_def comp_def)
  note la = sweep_records [OF d sw]
  have "\<forall>j<length bs. \<forall>i<length qubit_sizes.
        recorded e (repeats a) w' (snd (bs ! j)) (Circuit (qubit_sizes ! i) (depth a) (seed a))
          (fst (snd (res ! j)) ! i, snd (snd (res ! j)) ! i)"
  proof (intro allI impI)
    fix j i assume j: "j < length bs" and i: "i < length qubit_sizes"
    then have jl: "j < length (init_results bs)" by (simp add: init_results_def)
    have old: "init_results bs ! j = (fst (bs ! j), [], [])" using j by (simp add: init_results_def)
    have mem: "(fst (bs ! j), snd (bs ! j)) \<in> set bs" using j by simp
    then have "fst (bs ! j) \<in> fst ` set bs" by force
    with list_all2_nthD [OF la jl] old obtain sim cs where
      s: "(fst (bs ! j), sim) \<in> set bs" and l: "length cs = length qubit_sizes" and
      t1: "fst (snd (res ! j)) = map fst cs" and t2: "snd (snd (res ! j)) = map snd cs" and
      rs: "\<forall>i<length qubit_sizes.
          recorded e (repeats a) w' sim (Circuit (qubit_sizes ! i) (depth a) (seed a)) (cs ! i)"
      by auto
    from d s mem have "sim = snd (bs ! j)" by (metis eq_key_imp_eq_value)
    with rs i l t1 t2
    show "recorded e (repeats a) w' (snd (bs ! j)) (Circuit (qubit_sizes ! i) (depth a) (seed a))
          (fst (snd (res ! j)) ! i, snd (snd (res ! j)) ! i)"
      by simp
  qed
  with sb ks show ?thesis by blast
qed

subsection \<open>The sweep ends when nothing but Exceptions are raised\<close>

lemma timed_runs_Inl:
  "timed_runs k e sim qc tms w = (Inl exc, w') \<Longrightarrow> \<exists>h. run e h sim qc = Inl exc"
proof (induction k arbitrary: tms w)
  case 0
  then show ?case by simp
next
  case (Suc k)
  show ?case
  proof (cases "run e (executed w) sim qc")
    case (Inl x)
    with Suc.prems have "x = exc" by simp
    with Inl show ?thesis by blast
  next
    case (Inr d)
    with Suc.prems Suc.IH show ?thesis by simp
  qed
qed

lemma benchmark_Inl:
  "benchmark e sim qc reps w = (Inl exc, w') \<Longrightarrow> \<exists>h. run e h sim qc = Inl exc"
  by (auto simp: benchmark_def split: prod.splits sum.splits dest: timed_runs_Inl)

lemma trial_completes:
  assumes k: "fst nb \<in> fst ` set res"
    and x: "\<forall>h exc. run e h (snd nb) qc = Inl exc \<longrightarrow> is_Exception exc"
  shows "\<exists>res' w'. trial e reps qc nb res w = (Inr res', w')"
proof -
  obtain r w1 where b: "benchmark e (snd nb) qc reps w = (r, w1)"
    by (cases "benchmark e (snd nb) qc reps w")
  show ?thesis
  proof (cases r)
    case (Inl exc)
    with b benchmark_Inl x have "is_Exception exc" by blast
    with Inl b k show ?thesis by (simp add: trial_def trial_failed_def append_cell_def)
  next
    case (Inr ms)
    with b k show ?thesis by (simp add: trial_def append_cell_def split: prod.splits)
  qed
qed

lemma for_backends_completes:
  assumes "fst ` set bs \<subseteq> fst ` set res"
    and "\<forall>h nb exc. nb \<in> set bs \<longrightarrow> run e h (snd nb) qc = Inl exc \<longrightarrow> is_Exception exc"
  shows "\<exists>res' w'. for_backends e reps qc bs res w = (Inr res', w')"
  using assms
proof (induction bs arbitrary: res w)
  case Nil
  then show ?case by simp
next
  case (Cons nb bs)
  from Cons.prems(1) have k: "fst nb \<in> fst ` set res" by simp
  have "nb \<in> set (nb # bs)" by simp
  with Cons.prems(2) have x: "\<forall>h exc. run e h (snd nb) qc = Inl exc \<longrightarrow> is_Exception exc" by blast
  from trial_completes [OF k x] obtain res1 w1 where t: "trial e reps qc nb res w = (Inr res1, w1)"
    by blast
  from trial_appends [OF t] obtain c1 c2 where "append_cell (fst nb) c1 c2 res = Inr res1" by blast
  then have "map fst res1 = map fst res" by (rule append_cell_keys)
  then have "fst ` set res1 = fst ` set res" by (metis set_map)
  with Cons.prems(1) have k1: "fst ` set bs \<subseteq> fst ` set res1" by simp
  from Cons.prems(2) have x1: "\<forall>h nb exc. nb \<in> set bs \<longrightarrow> run e h (snd nb) qc = Inl exc \<longrightarrow> is_Exception exc"
    by (meson list.set_intros(2))
  from Cons.IH [OF k1 x1] t show ?case by simp
qed

lemma sweep_completes:
  assumes "fst ` set bs \<subseteq> fst ` set res"
    and "\<forall>h n. generate e h n = None"
    and "\<forall>h sim qc exc. run e h sim qc = Inl exc \<longrightarrow> is_Exception exc"
  shows "\<exists>res' w'. sweep e a bs ns res w = (Inr res', w')"
  using assms(1)
proof (induction ns arbitrary: res w)
  case Nil
  then show ?case by simp
next
  case (Cons n ns)
  let ?qc = "Circuit n (depth a) (seed a)"
  from assms(2) obtain w1 where m: "make_circuit e n (depth a) (seed a) (print (Benchmarking n) w) = (Inr ?qc, w1)"
    by (simp add: make_circuit_def)
  from assms(3) have "\<forall>h nb exc. nb \<in> set bs \<longrightarrow> run e h (snd nb) ?qc = Inl exc \<longrightarrow> is_Exception exc"
    by blast
  from for_backends_completes [OF Cons.prems this] obtain res2 w2 where
    f: "for_backends e (repeats a) ?qc bs res w1 = (Inr res2, w2)" by blast
  from for_backends_shape [OF f] have "map fst res2 = map fst res" by simp
  then have "fst ` set res2 = fst ` set res" by (metis set_map)
  with Cons.prems have "fst ` set bs \<subseteq> fst ` set res2" by simp
  from Cons.IH [OF this] m f show ?case by simp
qed

lemma collect_results_completes:
  assumes sb: "setup_backends e (precision a) (backends a) w = (Inr bs, w1)"
    and ne: "bs \<noteq> []" and st: "step a \<noteq> 0"
    and gen: "\<forall>h n. generate e h n = None"
    and exc: "\<forall>h sim qc exc. run e h sim qc = Inl exc \<longrightarrow> is_Exception exc"
  shows "\<exists>qs res w'. collect_results e a w = (Inr (qs, res), w')"
proof -
  from st have "\<exists>qs. py_range (min_qubits a) (max_qubits a + 1) (step a) = Inr qs"
    by (simp add: py_range_def)
  then obtain qs where rg: "py_range (min_qubits a) (max_qubits a + 1) (step a) = Inr qs" ..
  have "\<exists>w2. (if warmup a then warmup_block e a bs w1 else (Inr (), w1)) = (Inr (), w2)"
  proof (cases "warmup a")
    case False
    then show ?thesis by simp
  next
    case True
    let ?qc = "Circuit (min_qubits a) (depth a) (seed a)"
    from gen obtain w1' where
      m: "make_circuit e (min_qubits a) (depth a) (seed a) (print Performing_warmup w1) = (Inr ?qc, w1')"
      by (simp add: make_circuit_def)
    from exc have "\<forall>h nb exc. nb \<in> set bs \<longrightarrow> run e h (snd nb) ?qc = Inl exc \<longrightarrow> is_Exception exc"
      by blast
    from warmup_backends_runs_each_once [OF this, of w1'] obtain w2 where
      "warmup_backends e ?qc bs w1' = (Inr (), w2)" by blast
    with True m show ?thesis by (simp add: warmup_block_def)
  qed
  then obtain w2 where wu: "(if warmup a then warmup_block e a bs w1 else (Inr (), w1)) = (Inr (), w2)" ..
  have "fst ` set bs \<subseteq> fst ` set (init_results bs)" by (force simp: init_results_def)
  from sweep_completes [OF this gen exc] obtain res w' where
    "sweep e a bs qs (init_results bs) (print Starting_benchmark w2) = (Inr res, w')" by blast
  with sb ne rg wu have "collect_results e a w = (Inr (qs, res), w')"
    by (simp add: collect_results_def)
  then show ?thesis by blast
qed

text \<open>
  Claim C4. When the sweep of \<open>run_benchmarks\<close> completes, the sizes are those of
  \<open>range(min_qubits, max_qubits + 1, step)\<close>, generated in that order; the keys of
  the table are exactly the requested backends that were constructed, in the order
  cpu, gpu\_default, gpu\_custatevec, each once; each backend's list of times and list
  of standard deviations has exactly one entry per size; and the entry of backend
  \<open>j\<close> at position \<open>i\<close> is the cell recorded by a trial of that backend's simulator
  on the circuit of the \<open>i\<close>-th size, made in this run: the mean and the standard
  deviation that \<open>benchmark\<close> returned, or NaN and NaN when it raised an Exception.
  The sweep does complete whenever the backends were set up, the step is not zero,
  the circuits can be built and the simulators raise nothing but Exceptions: a trial
  that fails does not end it.
\<close>

theorem completed_sweep_table_shape:
  "(collect_results e a w = (Inr (qubit_sizes, res), w') \<longrightarrow>
      py_range (min_qubits a) (max_qubits a + 1) (step a) = Inr qubit_sizes \<and>
      map fst res =
        (if requested ''cpu'' (backends a) then [''cpu''] else []) @
        (if requested ''gpu_default'' (backends a) \<and>
            construct e (AerSimulator ''GPU'' (precision a) False) = None
         then [''gpu_default''] else []) @
        (if requested ''gpu_custatevec'' (backends a) \<and>
            construct e (AerSimulator ''GPU'' (precision a) True) = None
         then [''gpu_custatevec''] else []) \<and>
      distinct (map fst res) \<and>
      (\<forall>(name, ts, ss) \<in> set res. length ts = length qubit_sizes \<and> length ss = length qubit_sizes) \<and>
      generated w' = generated w @ (if warmup a then [min_qubits a] else []) @ qubit_sizes \<and>
      (\<exists>bs w1. setup_backends e (precision a) (backends a) w = (Inr bs, w1) \<and>
         map fst res = map fst bs \<and>
         (\<forall>j<length bs. \<forall>i<length qubit_sizes.
            recorded e (repeats a) w' (snd (bs ! j)) (Circuit (qubit_sizes ! i) (depth a) (seed a))
              (fst (snd (res ! j)) ! i, snd (snd (res ! j)) ! i)))) \<and>
   (setup_backends e (precision a) (backends a) w = (Inr bs0, w0) \<and> bs0 \<noteq> [] \<and> step a \<noteq> 0 \<and>
    (\<forall>h n. generate e h n = None) \<and>
    (\<forall>h sim qc exc. run e h sim qc = Inl exc \<longrightarrow> is_Exception exc)
    \<longrightarrow> (\<exists>qs tab wf. collect_results e a w = (Inr (qs, tab), wf)))"
proof (intro conjI impI)
  assume c: "collect_results e a w = (Inr (qubit_sizes, res), w')"
  note s = collect_results_shape [OF c]
  from s show "py_range (min_qubits a) (max_qubits a + 1) (step a) = Inr qubit_sizes" by simp
  from s show "map fst res =
        (if requested ''cpu'' (backends a) then [''cpu''] else []) @
        (if requested ''gpu_default'' (backends a) \<and>
            construct e (AerSimulator ''GPU'' (precision a) False) = None
         then [''gpu_default''] else []) @
        (if requested ''gpu_custatevec'' (backends a) \<and>
            construct e (AerSimulator ''GPU'' (precision a) True) = None
         then [''gpu_custatevec''] else [])" by blast
  from s show "distinct (map fst res)" by blast
  from s show "\<forall>(name, ts, ss) \<in> set res. length ts = length qubit_sizes \<and> length ss = length qubit_sizes"
    by blast
  from s show "generated w' = generated w @ (if warmup a then [min_qubits a] else []) @ qubit_sizes"
    by blast
  from collect_results_cells [OF c]
  show "\<exists>bs w1. setup_backends e (precision a) (backends a) w = (Inr bs, w1) \<and>
         map fst res = map fst bs \<and>
         (\<forall>j<length bs. \<forall>i<length qubit_sizes.
            recorded e (repeats a) w' (snd (bs ! j)) (Circuit (qubit_sizes ! i) (depth a) (seed a))
              (fst (snd (res ! j)) ! i, snd (snd (res ! j)) ! i))" .
next
  assume h: "setup_backends e (precision a) (backends a) w = (Inr bs0, w0) \<and> bs0 \<noteq> [] \<and> step a \<noteq> 0 \<and>
    (\<forall>h n. generate e h n = None) \<and>
    (\<forall>h sim qc exc. run e h sim qc = Inl exc \<longrightarrow> is_Exception exc)"
  then have sb: "setup_backends e (precision a) (backends a) w = (Inr bs0, w0)" and ne: "bs0 \<noteq> []"
    and st: "step a \<noteq> 0" and gen: "\<forall>h n. generate e h n = None"
    and exc: "\<forall>h sim qc exc. run e h sim qc = Inl exc \<longrightarrow> is_Exception exc"
    by blast+
  from collect_results_completes [OF sb ne st gen exc]
  show "\<exists>qs tab wf. collect_results e a w = (Inr (qs, tab), wf)" .
qed

theorem completed_sweep_table_shape_witness:
  "fst (collect_results env_gpu_fails_at_4 (args_example\<lparr>backends := [''all''], max_qubits := 6\<rparr>)
         initial_world) =
     Inr ([2, 4, 6],
          [(''cpu'', [Fin 2, Fin 4, Fin 6], [Fin 0, Fin 0, Fin 0]),
           (''gpu_default'', [Fin 2, NaN, Fin 6], [Fin 0, NaN, Fin 0])]) \<and>
   generated (snd (collect_results env_gpu_fails_at_4
       (args_example\<lparr>backends := [''all''], max_qubits := 6\<rparr>) initial_world)) = [2, 4, 6] \<and>
   recorded env_gpu_fails_at_4 1
     (snd (collect_results env_gpu_fails_at_4
        (args_example\<lparr>backends := [''all''], max_qubits := 6\<rparr>) initial_world))
     (AerSimulator ''GPU'' ''double'' False) (Circuit 4 10 42) (NaN, NaN) \<and>
   recorded env_gpu_fails_at_4 1
     (snd (collect_results env_gpu_fails_at_4
        (args_example\<lparr>backends := [''all''], max_qubits := 6\<rparr>) initial_world))
     (AerSimulator ''CPU'' ''double'' False) (Circuit 6 10 42) (Fin 6, Fin 0) \<and>
   (\<exists>qs tab wf. collect_results env_gpu_fails_at_4
       (args_example\<lparr>backends := [''all''], max_qubits := 6\<rparr>) initial_world = (Inr (qs, tab), wf))"
proof -
  let ?a = "args_example\<lparr>backends := [''all''], max_qubits := 6\<rparr>"
  let ?bs = "[(''cpu'', AerSimulator ''CPU'' ''double'' False),
              (''gpu_default'', AerSimulator ''GPU'' ''double'' False)]"
  let ?tab = "[(''cpu'', [Fin 2, Fin 4, Fin 6], [Fin 0, Fin 0, Fin 0]),
               (''gpu_default'', [Fin 2, NaN, Fin 6], [Fin 0, NaN, Fin 0])]"
  let ?ws = "snd (setup_backends env_gpu_fails_at_4 (precision ?a) (backends ?a) initial_world)"
  have sb: "setup_backends env_gpu_fails_at_4 (precision ?a) (backends ?a) initial_world = (Inr ?bs, ?ws)"
    by (simp add: setup_backends_def cpu_block_def gpu_block_def requested_def print_def
        env_gpu_fails_at_4_def args_example_def)
  have ev: "fst (collect_results env_gpu_fails_at_4 ?a initial_world) = Inr ([2, 4, 6], ?tab)"
    by (simp add: collect_results_def setup_backends_def cpu_block_def gpu_block_def requested_def
      print_def py_range_def make_circuit_def benchmark_def init_results_def trial_def
      trial_failed_def append_cell_def np_mean_def np_std_def upt_conv_Cons
      env_gpu_fails_at_4_def args_example_def initial_world_def)
  then have c: "collect_results env_gpu_fails_at_4 ?a initial_world =
     (Inr ([2, 4, 6], ?tab), snd (collect_results env_gpu_fails_at_4 ?a initial_world))"
    by (metis prod.collapse)
  note th = completed_sweep_table_shape [where e = env_gpu_fails_at_4 and a = ?a and w = initial_world]
  note first = th [where qubit_sizes = "[2, 4, 6]" and res = ?tab, THEN conjunct1, THEN mp, OF c]
  from first have g: "generated (snd (collect_results env_gpu_fails_at_4 ?a initial_world)) = [2, 4, 6]"
    by (simp add: args_example_def initial_world_def)
  from first obtain bs w1 where
    sb': "setup_backends env_gpu_fails_at_4 (precision ?a) (backends ?a) initial_world = (Inr bs, w1)" and
    cells: "\<forall>j<length bs. \<forall>i<length [2, 4, 6 :: int].
            recorded env_gpu_fails_at_4 (repeats ?a)
              (snd (collect_results env_gpu_fails_at_4 ?a initial_world))
              (snd (bs ! j)) (Circuit ([2, 4, 6] ! i) (depth ?a) (seed ?a))
              (fst (snd (?tab ! j)) ! i, snd (snd (?tab ! j)) ! i)"
    by blast
  from sb sb' have bs: "bs = ?bs" by simp
  from cells [rule_format, of 1 1] bs
  have r1: "recorded env_gpu_fails_at_4 1 (snd (collect_results env_gpu_fails_at_4 ?a initial_world))
     (AerSimulator ''GPU'' ''double'' False) (Circuit 4 10 42) (NaN, NaN)"
    by (simp add: args_example_def)
  from cells [rule_format, of 0 2] bs
  have r2: "recorded env_gpu_fails_at_4 1 (snd (collect_results env_gpu_fails_at_4 ?a initial_world))
     (AerSimulator ''CPU'' ''double'' False) (Circuit 6 10 42) (Fin 6, Fin 0)"
    by (simp add: args_example_def)
  have "\<exists>qs tab wf. collect_results env_gpu_fails_at_4 ?a initial_world = (Inr (qs, tab), wf)"
  proof (rule th [where ?bs0.0 = ?bs and ?w0.0 = ?ws, THEN conjunct2, THEN mp])
    show "setup_backends env_gpu_fails_at_4 (precision ?a) (backends ?a) initial_world =
        (Inr ?bs, ?ws) \<and> ?bs \<noteq> [] \<and> step ?a \<noteq> 0 \<and>
        (\<forall>h n. generate env_gpu_fails_at_4 h n = None) \<and>
        (\<forall>h sim qc exc. run env_gpu_fails_at_4 h sim qc = Inl exc \<longrightarrow> is_Exception exc)"
      using sb by (auto simp: env_gpu_fails_at_4_def args_example_def split: if_splits)
  qed
  with ev g r1 r2 show ?thesis by blast
qed

end
